theory Spec2Isabelle
  imports Complex_Main "HOL-Library.AList" "HOL-Library.Log_Nat"
begin

section \<open>The JavaScript values the message handler computes with\<close>

text \<open>
  The handler of \<^verbatim>\<open>server.js\<close> works on whatever \<^verbatim>\<open>JSON.parse\<close> returns, so the
  fields of a message are dynamically typed. A number is an IEEE-754 double. A finite
  double is a dyadic rational: \<open>Fin m k\<close> stands for \<open>m / 2 ^ k\<close>, so \<open>Fin 500 0\<close> is
  \<open>500\<close> and \<open>Fin 1 60\<close> is \<open>2\<^sup>-\<^sup>6\<^sup>0\<close>; \<^verbatim>\<open>JSON.parse\<close> and the arithmetic below give
  it in lowest terms (\<open>k = 0\<close> or \<open>m\<close> odd). The two zeros are identified. Beside the
  finite doubles stand the two infinities (\<^verbatim>\<open>JSON.parse("1e999")\<close>) and \<^verbatim>\<open>NaN\<close>.
  Arrays and objects carry the identity of their allocation, which is what \<^verbatim>\<open>===\<close> and
  the keys of a \<^verbatim>\<open>Map\<close> compare; an object lists its own properties.
\<close>

datatype jsnum = NaN | NegInf | Fin int nat | PosInf

datatype jsval =
    JUndefined
  | JNull
  | JBool bool
  | JNum jsnum
  | JStr string
  | JArr nat "jsval list"
  | JObj nat "(string \<times> jsval) list"

datatype error = SyntaxError | TypeError | NativeError string

text \<open>\<open>m / 2 ^ k\<close> in lowest terms.\<close>

fun norm :: "int \<Rightarrow> nat \<Rightarrow> jsnum" where
  "norm m 0 = Fin m 0"
| "norm m (Suc k) = (if even m then norm (m div 2) k else Fin m (Suc k))"

text \<open>
  The double nearest to \<open>M / 2 ^ K\<close>, ties to the even significand (the rounding of every
  arithmetic operation of the language). A double has 53 significant bits and no bit
  below \<open>2\<^sup>-\<^sup>1\<^sup>0\<^sup>7\<^sup>4\<close>: \<open>u\<close> is the exponent of the last bit kept and \<open>s\<close> the number of
  bits of \<open>M\<close> below it. With nothing below it the value is a double already. Otherwise
  \<open>M\<close> is cut at that bit and rounded; a result of \<open>2\<^sup>1\<^sup>0\<^sup>2\<^sup>4\<close> or more in magnitude is an
  infinity.
\<close>

definition round_double :: "int \<Rightarrow> nat \<Rightarrow> jsnum" where
  "round_double M K =
     (let u = max (bitlen \<bar>M\<bar> - 53 - int K) (- 1074);
          s = u + int K
      in if s \<le> 0 then norm M K
         else
           (let q = M div 2 ^ nat s;
                r = M mod 2 ^ nat s;
                half = 2 ^ (nat s - 1);
                q' = (if half < r \<or> (r = half \<and> odd q) then q + 1 else q)
            in if 1024 < bitlen \<bar>q'\<bar> + u then (if M < 0 then NegInf else PosInf)
               else if 0 \<le> u then Fin (q' * 2 ^ nat u) 0
               else norm q' (nat (- u))))"

text \<open>
  Number addition: the exact sum, rounded; opposite infinities give \<^verbatim>\<open>NaN\<close>. Subtraction
  adds the negation.
\<close>

fun num_add :: "jsnum \<Rightarrow> jsnum \<Rightarrow> jsnum" where
  "num_add NaN _ = NaN"
| "num_add _ NaN = NaN"
| "num_add (Fin a j) (Fin b k) =
     round_double (a * 2 ^ (max j k - j) + b * 2 ^ (max j k - k)) (max j k)"
| "num_add PosInf NegInf = NaN"
| "num_add NegInf PosInf = NaN"
| "num_add PosInf _ = PosInf"
| "num_add _ PosInf = PosInf"
| "num_add NegInf _ = NegInf"
| "num_add _ NegInf = NegInf"

fun num_neg :: "jsnum \<Rightarrow> jsnum" where
  "num_neg NaN = NaN"
| "num_neg NegInf = PosInf"
| "num_neg (Fin a k) = Fin (- a) k"
| "num_neg PosInf = NegInf"

definition num_sub :: "jsnum \<Rightarrow> jsnum \<Rightarrow> jsnum" where
  "num_sub a b = num_add a (num_neg b)"

text \<open>The order of the numbers; every comparison with \<^verbatim>\<open>NaN\<close> is false.\<close>

fun num_le :: "jsnum \<Rightarrow> jsnum \<Rightarrow> bool" where
  "num_le NaN _ = False"
| "num_le _ NaN = False"
| "num_le NegInf _ = True"
| "num_le _ PosInf = True"
| "num_le (Fin a j) (Fin b k) = (a * 2 ^ k \<le> b * 2 ^ j)"
| "num_le (Fin a j) NegInf = False"
| "num_le PosInf (Fin b k) = False"
| "num_le PosInf NegInf = False"

text \<open>
  \<^verbatim>\<open>Math.min\<close> and \<^verbatim>\<open>Math.max\<close> on two numbers: \<^verbatim>\<open>NaN\<close> if either is \<^verbatim>\<open>NaN\<close>.
\<close>

definition Math_min :: "jsnum \<Rightarrow> jsnum \<Rightarrow> jsnum" where
  "Math_min a b = (if a = NaN \<or> b = NaN then NaN else if num_le a b then a else b)"

definition Math_max :: "jsnum \<Rightarrow> jsnum \<Rightarrow> jsnum" where
  "Math_max a b = (if a = NaN \<or> b = NaN then NaN else if num_le a b then b else a)"

text \<open>
  The conversions between numbers and strings (\<^verbatim>\<open>Number::toString\<close>, \<^verbatim>\<open>StringToNumber\<close>)
  belong to the language, not to the repository: they are parameters of the model. The
  handler reaches them only when a delta of a \<^verbatim>\<open>move\<close> is a string, an array or an object.
\<close>

record builtins =
  NumberToString :: "jsnum \<Rightarrow> string"
  StringToNumber :: "string \<Rightarrow> jsnum"

text \<open>
  \<^verbatim>\<open>ToString\<close>, as a template literal applies it. An object made by \<^verbatim>\<open>JSON.parse\<close> has no
  callable property of its own: with an own \<^verbatim>\<open>toString\<close> the inherited method is
  shadowed by a value that cannot be called, \<^verbatim>\<open>valueOf\<close> returns the object itself, and
  the conversion throws a \<^verbatim>\<open>TypeError\<close>; without one the inherited method answers
  \<^verbatim>\<open>[object Object]\<close>. An array joins the strings of its elements with commas, the
  empty string standing for \<^verbatim>\<open>null\<close> and \<^verbatim>\<open>undefined\<close>.
\<close>

fun ToString :: "builtins \<Rightarrow> jsval \<Rightarrow> error + string"
  and join :: "builtins \<Rightarrow> jsval list \<Rightarrow> error + string" where
  "ToString B JUndefined = Inr ''undefined''"
| "ToString B JNull = Inr ''null''"
| "ToString B (JBool b) = Inr (if b then ''true'' else ''false'')"
| "ToString B (JNum n) = Inr (NumberToString B n)"
| "ToString B (JStr s) = Inr s"
| "ToString B (JArr r xs) = join B xs"
| "ToString B (JObj r kvs) =
     (if ''toString'' \<in> fst ` set kvs then Inl TypeError else Inr ''[object Object]'')"
| "join B [] = Inr ''''"
| "join B (x # xs) =
     (case (if x = JNull \<or> x = JUndefined then Inr '''' else ToString B x) of
        Inl e \<Rightarrow> Inl e
      | Inr s \<Rightarrow>
          (case join B xs of
             Inl e \<Rightarrow> Inl e
           | Inr t \<Rightarrow> Inr (if xs = [] then s else s @ '','' @ t)))"

text \<open>
  \<^verbatim>\<open>ToPrimitive\<close> without a hint, as \<^verbatim>\<open>+\<close> applies it: a primitive is itself; an array
  or an object becomes the string above (their \<^verbatim>\<open>valueOf\<close> returns the object, so
  \<^verbatim>\<open>toString\<close> decides), or throws.
\<close>

fun ToPrimitive :: "builtins \<Rightarrow> jsval \<Rightarrow> error + jsval" where
  "ToPrimitive B (JArr r xs) = map_sum id JStr (ToString B (JArr r xs))"
| "ToPrimitive B (JObj r kvs) = map_sum id JStr (ToString B (JObj r kvs))"
| "ToPrimitive B v = Inr v"

text \<open>
  \<^verbatim>\<open>ToNumber\<close> of a primitive value. The handler applies it to the result of \<^verbatim>\<open>+\<close>, a
  number or a string; the equations for arrays and objects are never reached.
\<close>

fun ToNumber :: "builtins \<Rightarrow> jsval \<Rightarrow> jsnum" where
  "ToNumber B JUndefined = NaN"
| "ToNumber B JNull = Fin 0 0"
| "ToNumber B (JBool b) = (if b then Fin 1 0 else Fin 0 0)"
| "ToNumber B (JNum n) = n"
| "ToNumber B (JStr s) = StringToNumber B s"
| "ToNumber B (JArr r xs) = NaN"
| "ToNumber B (JObj r kvs) = NaN"

fun is_string :: "jsval \<Rightarrow> bool" where
  "is_string (JStr s) = True"
| "is_string _ = False"

text \<open>
  The operator \<^verbatim>\<open>+\<close>: both operands are made primitive; if either is a string the
  result is the concatenation of their strings, otherwise the sum of their numbers.
\<close>

definition js_add :: "builtins \<Rightarrow> jsval \<Rightarrow> jsval \<Rightarrow> error + jsval" where
  "js_add B a b =
     (case ToPrimitive B a of
        Inl e \<Rightarrow> Inl e
      | Inr pa \<Rightarrow>
          (case ToPrimitive B b of
             Inl e \<Rightarrow> Inl e
           | Inr pb \<Rightarrow>
               if is_string pa \<or> is_string pb
               then (case ToString B pa of
                       Inl e \<Rightarrow> Inl e
                     | Inr sa \<Rightarrow>
                         (case ToString B pb of
                            Inl e \<Rightarrow> Inl e
                          | Inr sb \<Rightarrow> Inr (JStr (sa @ sb))))
               else Inr (JNum (num_add (ToNumber B pa) (ToNumber B pb)))))"

text \<open>Truthiness, as \<^verbatim>\<open>&&\<close>, \<^verbatim>\<open>||\<close> and \<^verbatim>\<open>if\<close> test a value.\<close>

fun truthy :: "jsval \<Rightarrow> bool" where
  "truthy JUndefined = False"
| "truthy JNull = False"
| "truthy (JBool b) = b"
| "truthy (JNum n) = (case n of NaN \<Rightarrow> False | Fin m k \<Rightarrow> m \<noteq> 0 | _ \<Rightarrow> True)"
| "truthy (JStr s) = (s \<noteq> [])"
| "truthy (JArr r xs) = True"
| "truthy (JObj r kvs) = True"

text \<open>
  Reading a property of the parsed message. The handler reads \<^verbatim>\<open>type\<close>, \<^verbatim>\<open>sessionId\<close>,
  \<^verbatim>\<open>deltaX\<close> and \<^verbatim>\<open>deltaY\<close>, none of which a prototype defines: \<^verbatim>\<open>null\<close> throws, an
  object answers with its own property or \<^verbatim>\<open>undefined\<close>, every other value with
  \<^verbatim>\<open>undefined\<close>.
\<close>

fun get_prop :: "jsval \<Rightarrow> string \<Rightarrow> error + jsval" where
  "get_prop JUndefined p = Inl TypeError"
| "get_prop JNull p = Inl TypeError"
| "get_prop (JObj r kvs) p = (case map_of kvs p of None \<Rightarrow> Inr JUndefined | Some v \<Rightarrow> Inr v)"
| "get_prop v p = Inr JUndefined"

section \<open>Sessions, connections and the pointer capability\<close>

text \<open>
  A session record, as \<^verbatim>\<open>wss.on('connection')\<close> builds it. The field \<^verbatim>\<open>id\<close> is a value:
  \<^verbatim>\<open>setSessionId\<close> stores whatever truthy value the message carries. A connection is
  named by a number; times are milliseconds.
\<close>

record session =
  id' :: jsval
  ws :: nat
  ip :: string
  connectedAt :: int
  lastActivity :: int

text \<open>
  \<^verbatim>\<open>robotjs\<close> is a native module outside the repository: its five operations are
  parameters, over a pointer state of any type. Each may throw.
\<close>

record 'p robotjs =
  getScreenSize :: "'p \<Rightarrow> error + (jsnum \<times> jsnum)"
  getMousePos :: "'p \<Rightarrow> error + (jsnum \<times> jsnum)"
  moveMouse :: "jsnum \<Rightarrow> jsnum \<Rightarrow> 'p \<Rightarrow> error + 'p"
  mouseClick :: "jsval \<Rightarrow> 'p \<Rightarrow> error + 'p"
  scrollMouse :: "jsval \<Rightarrow> jsval \<Rightarrow> 'p \<Rightarrow> error + 'p"

text \<open>
  What is fixed when the process starts: \<^verbatim>\<open>robot\<close> is \<^verbatim>\<open>null\<close> when the import of
  \<^verbatim>\<open>robotjs\<close> failed.
\<close>

record 'p env =
  robot :: "'p robotjs option"
  lang :: builtins

text \<open>One constructor for each \<^verbatim>\<open>console.log\<close> and \<^verbatim>\<open>console.error\<close> of the server,
  holding the values the line interpolates (a duration in milliseconds, before rounding).\<close>

datatype logline =
    NewSessionStarted jsval
  | ClientIP string
  | TotalSessions nat
  | Received jsval jsval
  | RobotNotAvailable
  | SessionIdUpdated jsval jsval
  | LeftClick jsval
  | RightClick jsval
  | Scroll jsval jsval jsval
  | ErrorProcessing error
  | SessionEnded jsval
  | Duration int
  | RemainingSessions nat
  | WebSocketError jsval error
  | CleaningUp jsval int
  | CleanedUp nat nat

text \<open>
  The mutable state: the \<^verbatim>\<open>Map\<close> \<^verbatim>\<open>sessions\<close> in insertion order (\<^verbatim>\<open>set\<close> is
  \<^const>\<open>AList.update\<close>: in place for a key that is there, at the end for a new one;
  \<^verbatim>\<open>delete\<close> is \<^const>\<open>AList.delete\<close>), the two counters, the property \<^verbatim>\<open>sessionId\<close> and the
  \<^verbatim>\<open>readyState\<close> of every connection, the pointer and the console. After
  \<^verbatim>\<open>sessions.set\<close> no handler keeps a reference to a record besides the \<^verbatim>\<open>Map\<close>, and a
  record sits under one key at a time, so records are held by value.
\<close>

record 'p state =
  sessions :: "(jsval \<times> session) list"
  sessionIdCounter :: nat
  connectedClients :: int
  ws_sessionId :: "nat \<Rightarrow> jsval"
  readyState :: "nat \<Rightarrow> nat"
  pointer :: 'p
  console :: "logline list"

definition initial :: "'p \<Rightarrow> 'p state" where
  "initial p =
     \<lparr>sessions = [], sessionIdCounter = 0, connectedClients = 0,
      ws_sessionId = (\<lambda>c. JUndefined), readyState = (\<lambda>c. 1), pointer = p, console = []\<rparr>"

definition SESSION_TIMEOUT :: int where
  "SESSION_TIMEOUT = 30 * 60 * 1000"

definition generateSessionId :: "builtins \<Rightarrow> nat \<Rightarrow> int \<Rightarrow> string" where
  "generateSessionId B counter now =
     ''session_'' @ NumberToString B (Fin (int counter) 0) @ ''_''
       @ NumberToString B (Fin now 0)"

text \<open>
  A \<^verbatim>\<open>console.log\<close> of a template literal: the interpolated values are converted to
  strings first, and the first conversion that throws aborts the statement.
\<close>

fun interpolate :: "builtins \<Rightarrow> jsval list \<Rightarrow> error option" where
  "interpolate B [] = None"
| "interpolate B (v # vs) =
     (case ToString B v of Inl e \<Rightarrow> Some e | Inr s \<Rightarrow> interpolate B vs)"

definition console_log ::
  "builtins \<Rightarrow> jsval list \<Rightarrow> logline \<Rightarrow> 'p state \<Rightarrow> 'p state \<times> error option" where
  "console_log B vs line st =
     (case interpolate B vs of
        Some e \<Rightarrow> (st, Some e)
      | None \<Rightarrow> (st\<lparr>console := console st @ [line]\<rparr>, None))"

subsection \<open>\<^verbatim>\<open>wss.on('connection')\<close>\<close>

text \<open>
  The three readings of the clock (\<^verbatim>\<open>Date.now()\<close> in \<^verbatim>\<open>generateSessionId\<close>, then
  \<^verbatim>\<open>new Date()\<close> twice) are three arguments.
\<close>

definition on_connection ::
  "'p env \<Rightarrow> nat \<Rightarrow> string \<Rightarrow> int \<Rightarrow> int \<Rightarrow> int \<Rightarrow> 'p state \<Rightarrow> 'p state" where
  "on_connection E c remoteAddress t_id t_connected t_activity st =
     (let st1 = st\<lparr>connectedClients := connectedClients st + 1\<rparr>;
          st2 = st1\<lparr>sessionIdCounter := sessionIdCounter st1 + 1\<rparr>;
          sessionId = JStr (generateSessionId (lang E) (sessionIdCounter st2) t_id);
          clientSession = \<lparr>id' = sessionId, ws = c, ip = remoteAddress,
                           connectedAt = t_connected, lastActivity = t_activity\<rparr>;
          st3 = st2\<lparr>sessions := AList.update sessionId clientSession (sessions st2)\<rparr>;
          st4 = st3\<lparr>ws_sessionId := (ws_sessionId st3)(c := sessionId)\<rparr>
      in st4\<lparr>console := console st4 @
           [NewSessionStarted sessionId, ClientIP remoteAddress,
            TotalSessions (length (sessions st4))]\<rparr>)"

subsection \<open>\<^verbatim>\<open>ws.on('message')\<close>\<close>

text \<open>
  The five cases of the \<^verbatim>\<open>switch\<close> on \<^verbatim>\<open>data.type\<close>, one definition each. The result
  of a case is the state at the point where it ended or threw, and what it threw. The
  argument \<open>session\<close> is the record found under \<^verbatim>\<open>ws.sessionId\<close>, already touched.
\<close>

definition case_setSessionId ::
  "builtins \<Rightarrow> nat \<Rightarrow> jsval \<Rightarrow> session \<Rightarrow> 'p state \<Rightarrow> 'p state \<times> error option" where
  "case_setSessionId B c data session st =
     (case get_prop data ''sessionId'' of
        Inl e \<Rightarrow> (st, Some e)
      | Inr newId \<Rightarrow>
          if truthy newId then
            (let oldSessionId = id' session;
                 session1 = session\<lparr>id' := newId\<rparr>;
                 st1 = st\<lparr>sessions := AList.delete (ws_sessionId st c) (sessions st)\<rparr>;
                 st2 = st1\<lparr>sessions := AList.update newId session1 (sessions st1)\<rparr>;
                 st3 = st2\<lparr>ws_sessionId := (ws_sessionId st2)(c := newId)\<rparr>
             in console_log B [oldSessionId, newId] (SessionIdUpdated oldSessionId newId) st3)
          else (st, None))"

definition case_move ::
  "builtins \<Rightarrow> 'p robotjs \<Rightarrow> jsval \<Rightarrow> 'p state \<Rightarrow> 'p state \<times> error option" where
  "case_move B rob data st =
     (case getScreenSize rob (pointer st) of
        Inl e \<Rightarrow> (st, Some e)
      | Inr (width, height) \<Rightarrow>
     (case getMousePos rob (pointer st) of
        Inl e \<Rightarrow> (st, Some e)
      | Inr (x, y) \<Rightarrow>
     (case get_prop data ''deltaX'' of
        Inl e \<Rightarrow> (st, Some e)
      | Inr deltaX \<Rightarrow>
     (case js_add B (JNum x) deltaX of
        Inl e \<Rightarrow> (st, Some e)
      | Inr sumX \<Rightarrow>
     (case get_prop data ''deltaY'' of
        Inl e \<Rightarrow> (st, Some e)
      | Inr deltaY \<Rightarrow>
     (case js_add B (JNum y) deltaY of
        Inl e \<Rightarrow> (st, Some e)
      | Inr sumY \<Rightarrow>
          (let newX = Math_max (Fin 0 0) (Math_min (num_sub width (Fin 1 0)) (ToNumber B sumX));
               newY = Math_max (Fin 0 0) (Math_min (num_sub height (Fin 1 0)) (ToNumber B sumY))
           in case moveMouse rob newX newY (pointer st) of
                Inl e \<Rightarrow> (st, Some e)
              | Inr p \<Rightarrow> (st\<lparr>pointer := p\<rparr>, None))))))))"

definition case_click ::
  "builtins \<Rightarrow> 'p robotjs \<Rightarrow> session \<Rightarrow> 'p state \<Rightarrow> 'p state \<times> error option" where
  "case_click B rob session st =
     (case mouseClick rob JUndefined (pointer st) of
        Inl e \<Rightarrow> (st, Some e)
      | Inr p \<Rightarrow> console_log B [id' session] (LeftClick (id' session)) (st\<lparr>pointer := p\<rparr>))"

definition case_rightClick ::
  "builtins \<Rightarrow> 'p robotjs \<Rightarrow> session \<Rightarrow> 'p state \<Rightarrow> 'p state \<times> error option" where
  "case_rightClick B rob session st =
     (case mouseClick rob (JStr ''right'') (pointer st) of
        Inl e \<Rightarrow> (st, Some e)
      | Inr p \<Rightarrow> console_log B [id' session] (RightClick (id' session)) (st\<lparr>pointer := p\<rparr>))"

definition case_scroll ::
  "builtins \<Rightarrow> 'p robotjs \<Rightarrow> jsval \<Rightarrow> session \<Rightarrow> 'p state \<Rightarrow> 'p state \<times> error option" where
  "case_scroll B rob data session st =
     (case get_prop data ''deltaX'' of
        Inl e \<Rightarrow> (st, Some e)
      | Inr deltaX \<Rightarrow>
     (case get_prop data ''deltaY'' of
        Inl e \<Rightarrow> (st, Some e)
      | Inr deltaY \<Rightarrow>
     (case scrollMouse rob (if truthy deltaX then deltaX else JNum (Fin 0 0))
             (if truthy deltaY then deltaY else JNum (Fin 0 0)) (pointer st) of
        Inl e \<Rightarrow> (st, Some e)
      | Inr p \<Rightarrow>
          console_log B [id' session, deltaX, deltaY] (Scroll (id' session) deltaX deltaY)
            (st\<lparr>pointer := p\<rparr>))))"

text \<open>The \<^verbatim>\<open>switch\<close>, reached with the capability \<open>rob\<close> present; it has no default.\<close>

definition process_command ::
  "builtins \<Rightarrow> 'p robotjs \<Rightarrow> nat \<Rightarrow> jsval \<Rightarrow> jsval \<Rightarrow> session \<Rightarrow> 'p state
     \<Rightarrow> 'p state \<times> error option" where
  "process_command B rob c data ty session st =
    (if ty = JStr ''setSessionId'' then case_setSessionId B c data session st
     else if ty = JStr ''move'' then case_move B rob data st
     else if ty = JStr ''click'' then case_click B rob session st
     else if ty = JStr ''rightClick'' then case_rightClick B rob session st
     else if ty = JStr ''scroll'' then case_scroll B rob data session st
     else (st, None))"

text \<open>
  The body of the \<^verbatim>\<open>try\<close>. The argument \<open>parsed\<close> is the outcome of
  \<^verbatim>\<open>JSON.parse(message)\<close>: the \<^verbatim>\<open>SyntaxError\<close> thrown, or the value; \<open>now\<close> is the
  \<^verbatim>\<open>new Date()\<close> written to \<^verbatim>\<open>lastActivity\<close>.
\<close>

definition try_block ::
  "'p env \<Rightarrow> nat \<Rightarrow> int \<Rightarrow> error + jsval \<Rightarrow> 'p state \<Rightarrow> 'p state \<times> error option" where
  "try_block E c now parsed st =
     (case parsed of
        Inl e \<Rightarrow> (st, Some e)
      | Inr data \<Rightarrow>
          (case map_of (sessions st) (ws_sessionId st c) of
             None \<Rightarrow> (st, None)
           | Some session0 \<Rightarrow>
               (let session = session0\<lparr>lastActivity := now\<rparr>;
                    st1 = st\<lparr>sessions :=
                             AList.update (ws_sessionId st c) session (sessions st)\<rparr>
                in case get_prop data ''type'' of
                     Inl e \<Rightarrow> (st1, Some e)
                   | Inr ty \<Rightarrow>
                       (case console_log (lang E) [id' session, ty]
                               (Received (id' session) ty) st1 of
                          (st2, Some e) \<Rightarrow> (st2, Some e)
                        | (st2, None) \<Rightarrow>
                            (case robot E of
                               None \<Rightarrow> console_log (lang E) [] RobotNotAvailable st2
                             | Some rob \<Rightarrow>
                                 process_command (lang E) rob c data ty session st2)))))"

text \<open>The handler: the \<^verbatim>\<open>catch\<close> logs what the body threw and returns.\<close>

definition on_message ::
  "'p env \<Rightarrow> nat \<Rightarrow> int \<Rightarrow> error + jsval \<Rightarrow> 'p state \<Rightarrow> 'p state" where
  "on_message E c now parsed st =
     (case try_block E c now parsed st of
        (st', None) \<Rightarrow> st'
      | (st', Some e) \<Rightarrow> st'\<lparr>console := console st' @ [ErrorProcessing e]\<rparr>)"

subsection \<open>\<^verbatim>\<open>ws.on('close')\<close>, \<^verbatim>\<open>ws.on('error')\<close> and the sweep of \<^verbatim>\<open>setInterval\<close>\<close>

text \<open>
  These three callbacks have no \<^verbatim>\<open>try\<close>: an exception of a template literal leaves
  them uncaught and ends the process, which is the result \<open>Inl\<close>.
\<close>

definition on_close :: "'p env \<Rightarrow> nat \<Rightarrow> int \<Rightarrow> 'p state \<Rightarrow> error + 'p state" where
  "on_close E c now st =
     (let st1 = st\<lparr>connectedClients := connectedClients st - 1\<rparr>
      in case (case map_of (sessions st1) (ws_sessionId st1 c) of
                 None \<Rightarrow> (st1, None)
               | Some session \<Rightarrow>
                   (case console_log (lang E) [id' session] (SessionEnded (id' session)) st1 of
                      (st2, Some e) \<Rightarrow> (st2, Some e)
                    | (st2, None) \<Rightarrow>
                        (let st3 = st2\<lparr>console := console st2 @
                                        [Duration (now - connectedAt session)]\<rparr>
                         in (st3\<lparr>sessions :=
                                   AList.delete (ws_sessionId st3 c) (sessions st3)\<rparr>, None)))) of
           (st4, Some e) \<Rightarrow> Inl e
         | (st4, None) \<Rightarrow>
             Inr (st4\<lparr>console := console st4 @ [RemainingSessions (length (sessions st4))]\<rparr>))"

definition on_error :: "'p env \<Rightarrow> nat \<Rightarrow> error \<Rightarrow> 'p state \<Rightarrow> error + 'p state" where
  "on_error E c err st =
     (case console_log (lang E) [ws_sessionId st c] (WebSocketError (ws_sessionId st c) err) st of
        (st1, Some e) \<Rightarrow> Inl e
      | (st1, None) \<Rightarrow>
          Inr (if truthy (ws_sessionId st1 c) \<and> map_of (sessions st1) (ws_sessionId st1 c) \<noteq> None
               then st1\<lparr>sessions := AList.delete (ws_sessionId st1 c) (sessions st1)\<rparr>
               else st1))"

text \<open>
  The loop of the sweep over the entries of the \<^verbatim>\<open>Map\<close>. Its body deletes only the
  entry it is visiting, so the entries still to visit are those the \<^verbatim>\<open>Map\<close> had when the
  loop began: the recursion runs over that list. \<^verbatim>\<open>ws.close()\<close> on an open connection
  (\<^verbatim>\<open>readyState\<close> 1) starts the closing handshake, which leaves it in \<^verbatim>\<open>readyState\<close> 2.
\<close>

fun sweep_loop ::
  "builtins \<Rightarrow> int \<Rightarrow> (jsval \<times> session) list \<Rightarrow> 'p state \<Rightarrow> nat \<Rightarrow> error + ('p state \<times> nat)"
  where
  "sweep_loop B now [] st cleanedCount = Inr (st, cleanedCount)"
| "sweep_loop B now ((sessionId, session) # rest) st cleanedCount =
     (let inactiveTime = now - lastActivity session
      in if inactiveTime > SESSION_TIMEOUT then
           (case console_log B [sessionId] (CleaningUp sessionId inactiveTime) st of
              (st1, Some e) \<Rightarrow> Inl e
            | (st1, None) \<Rightarrow>
                (let st2 = (if readyState st1 (ws session) = 1
                            then st1\<lparr>readyState := (readyState st1)(ws session := 2)\<rparr>
                            else st1);
                     st3 = st2\<lparr>sessions := AList.delete sessionId (sessions st2)\<rparr>
                 in sweep_loop B now rest st3 (cleanedCount + 1)))
         else sweep_loop B now rest st cleanedCount)"

definition sweep :: "'p env \<Rightarrow> int \<Rightarrow> 'p state \<Rightarrow> error + 'p state" where
  "sweep E now st =
     (case sweep_loop (lang E) now (sessions st) st 0 of
        Inl e \<Rightarrow> Inl e
      | Inr (st', cleanedCount) \<Rightarrow>
          Inr (if cleanedCount > 0
               then st'\<lparr>console := console st' @
                          [CleanedUp cleanedCount (length (sessions st'))]\<rparr>
               else st'))"

section \<open>What the properties are stated with\<close>

text \<open>
  Clamping as the specification words it: a coordinate constrained to the inclusive range
  from \<open>lo\<close> to \<open>hi\<close>.
\<close>

definition clamp :: "jsnum \<Rightarrow> jsnum \<Rightarrow> jsnum \<Rightarrow> jsnum" where
  "clamp v lo hi = (if num_le hi v then hi else if num_le lo v then v else lo)"



text \<open>A session is stale at \<open>now\<close> when the sweep's test \<^verbatim>\<open>inactiveTime > SESSION_TIMEOUT\<close> holds.\<close>

definition stale :: "int \<Rightarrow> session \<Rightarrow> bool" where
  "stale now s \<longleftrightarrow> now - lastActivity s > SESSION_TIMEOUT"

text \<open>
  The registry's invariant: the keys of the \<^verbatim>\<open>Map\<close> are distinct and every record sits
  under its own \<^verbatim>\<open>id\<close>. Uniqueness of the ids of the registered sessions follows from it.
\<close>

definition registry_inv :: "(jsval \<times> session) list \<Rightarrow> bool" where
  "registry_inv reg \<longleftrightarrow> distinct (map fst reg) \<and> list_all (\<lambda>(k, s). id' s = k) reg"

definition unique_ids :: "(jsval \<times> session) list \<Rightarrow> bool" where
  "unique_ids reg \<longleftrightarrow> distinct (map (\<lambda>(k, s). id' s) reg)"

text \<open>
  The states the server can be in: the callbacks run one at a time, each to its end, from
  the state at start-up; a callback that ends the process has no successor. Between two
  callbacks the connections and the pointer change as the network and the host move them.
\<close>

inductive reachable :: "'p env \<Rightarrow> 'p state \<Rightarrow> bool" for E :: "'p env" where
  start: "reachable E (initial p)"
| connection: "reachable E st \<Longrightarrow> reachable E (on_connection E c a t1 t2 t3 st)"
| message: "reachable E st \<Longrightarrow> reachable E (on_message E c now parsed st)"
| closed: "reachable E st \<Longrightarrow> on_close E c now st = Inr st' \<Longrightarrow> reachable E st'"
| errored: "reachable E st \<Longrightarrow> on_error E c err st = Inr st' \<Longrightarrow> reachable E st'"
| swept: "reachable E st \<Longrightarrow> sweep E now st = Inr st' \<Longrightarrow> reachable E st'"
| outside: "reachable E st \<Longrightarrow> reachable E (st\<lparr>readyState := r, pointer := p\<rparr>)"

subsection \<open>A stub capability and two sessions\<close>

text \<open>
  A capability for the scenarios: it remembers the position it was last given and reports
  fixed bounds; clicks and scrolls leave the position alone. The runtime of the scenarios
  prints the natural numbers in decimal, which is all \<^const>\<open>generateSessionId\<close> asks of it;
  what it answers for other numbers, and for strings read as numbers, is a placeholder that
  no scenario reaches.
\<close>

fun decimal :: "nat \<Rightarrow> string" where
  "decimal n =
     (if n < 10 then [char_of (48 + n)] else decimal (n div 10) @ [char_of (48 + n mod 10)])"

declare decimal.simps [simp del]

record stub_pointer =
  position :: "jsnum \<times> jsnum"
  bounds :: "jsnum \<times> jsnum"

definition stub_robot :: "stub_pointer robotjs" where
  "stub_robot =
     \<lparr>getScreenSize = (\<lambda>p. Inr (bounds p)),
      getMousePos = (\<lambda>p. Inr (position p)),
      moveMouse = (\<lambda>x y p. Inr (p\<lparr>position := (x, y)\<rparr>)),
      mouseClick = (\<lambda>button p. Inr p),
      scrollMouse = (\<lambda>x y p. Inr p)\<rparr>"

definition stub_builtins :: builtins where
  "stub_builtins =
     \<lparr>NumberToString = (\<lambda>n. case n of Fin m k \<Rightarrow> decimal (nat (m div 2 ^ k)) | _ \<Rightarrow> ''NaN''),
      StringToNumber = (\<lambda>s. NaN)\<rparr>"

definition desktop :: "stub_pointer env" where
  "desktop = \<lparr>robot = Some stub_robot, lang = stub_builtins\<rparr>"

definition headless :: "stub_pointer env" where
  "headless = \<lparr>robot = None, lang = stub_builtins\<rparr>"

definition session_a :: session where
  "session_a = \<lparr>id' = JStr ''session_1'', ws = 1, ip = ''10.0.0.1'',
                 connectedAt = 0, lastActivity = 0\<rparr>"

definition session_b :: session where
  "session_b = \<lparr>id' = JStr ''client_abcd'', ws = 2, ip = ''10.0.0.2'',
                 connectedAt = 0, lastActivity = 1000\<rparr>"

definition two_sessions :: "stub_pointer state" where
  "two_sessions =
     \<lparr>sessions = [(JStr ''session_1'', session_a), (JStr ''client_abcd'', session_b)],
      sessionIdCounter = 2, connectedClients = 2,
      ws_sessionId = (\<lambda>c. if c = 1 then JStr ''session_1''
                           else if c = 2 then JStr ''client_abcd'' else JUndefined),
      readyState = (\<lambda>c. 1),
      pointer = \<lparr>position = (Fin 500 0, Fin 500 0), bounds = (Fin 1920 0, Fin 1080 0)\<rparr>,
      console = []\<rparr>"

text \<open>A message: the object \<^verbatim>\<open>JSON.parse\<close> returns for the given properties.\<close>

definition msg :: "(string \<times> jsval) list \<Rightarrow> error + jsval" where
  "msg kvs = Inr (JObj 0 kvs)"

text \<open>
  A client connects at time \<open>0\<close> and, at time \<open>10\<close>, sends
  \<^verbatim>\<open>{"type":"setSessionId","sessionId":{"toString":1}}\<close>: the state after the two
  callbacks.
\<close>

definition object_named :: "stub_pointer state" where
  "object_named =
     on_message desktop 1 10
       (msg [(''type'', JStr ''setSessionId''),
             (''sessionId'', JObj 1 [(''toString'', JNum (Fin 1 0))])])
       (on_connection desktop 1 ''10.0.0.1'' 0 0 0
          (initial \<lparr>position = (Fin 500 0, Fin 500 0), bounds = (Fin 1920 0, Fin 1080 0)\<rparr>))"

section \<open>Clamping of a relative move\<close>

text \<open>The sum of two doubles is a number unless one of them is \<^verbatim>\<open>NaN\<close> or they are
  opposite infinities.\<close>

lemma norm_not_special: "norm m k \<noteq> NaN \<and> norm m k \<noteq> PosInf \<and> norm m k \<noteq> NegInf"
  by (induction k arbitrary: m) auto

lemma if_not_NaN:
  "(c \<Longrightarrow> a \<noteq> NaN) \<Longrightarrow> (\<not> c \<Longrightarrow> b \<noteq> NaN) \<Longrightarrow> (if c then a else b) \<noteq> NaN"
  by simp

lemma round_double_not_NaN: "round_double M K \<noteq> NaN"
  unfolding round_double_def Let_def
  by (intro if_not_NaN) (simp_all only: norm_not_special jsnum.distinct not_False_eq_True)

lemma num_add_Fin_NaN: "d \<noteq> NaN \<Longrightarrow> num_add (Fin p k) d \<noteq> NaN"
  by (cases d) (simp_all add: round_double_not_NaN)


text \<open>
  An integer below \<open>2\<^sup>5\<^sup>3\<close> in magnitude is a double, so the sum of two integers is
  exact as long as it stays below that bound; a sum that is not a double is rounded, as
  are \<open>500 + 2\<^sup>-\<^sup>6\<^sup>0\<close>, \<open>500 + 0.1\<close> (the double \<open>3602879701896397 / 2\<^sup>5\<^sup>5\<close>),
  \<open>0.1 + 0.2\<close>, \<open>2\<^sup>5\<^sup>3 + 1\<close> (a tie, to the even significand) and \<open>2\<^sup>5\<^sup>3 + 3\<close>.
\<close>

lemma round_double_int:
  assumes "\<bar>M\<bar> < 2 ^ 53"
  shows "round_double M 0 = Fin M 0"
proof -
  have "bitlen \<bar>M\<bar> \<le> 53"
    using assms by (simp add: bitlen_le_iff_power)
  then show ?thesis
    by (simp add: round_double_def Let_def)
qed

lemma num_add_int:
  assumes "\<bar>a + b\<bar> < 2 ^ 53"
  shows "num_add (Fin a 0) (Fin b 0) = Fin (a + b) 0"
  using round_double_int [OF assms] by simp

lemma width_minus_one:
  assumes "1 \<le> w" and "w \<le> 2 ^ 53"
  shows "num_sub (Fin w 0) (Fin 1 0) = Fin (w - 1) 0"
proof -
  have "\<bar>w + - 1\<bar> < 2 ^ 53"
    using assms by simp
  from num_add_int [OF this] show ?thesis
    by (simp add: num_sub_def)
qed

lemma double_addition_rounds:
  "num_add (Fin 500 0) (Fin 1 60) = Fin 500 0"
  "num_add (Fin 500 0) (Fin 3602879701896397 55) = Fin 4398926120406221 43"
  "num_add (Fin 3602879701896397 55) (Fin 3602879701896397 54) = Fin 1351079888211149 52"
  "num_add (Fin 9007199254740992 0) (Fin 1 0) = Fin 9007199254740992 0"
  "num_add (Fin 9007199254740992 0) (Fin 3 0) = Fin 9007199254740996 0"
  by code_simp+

text \<open>
  On a screen at least one pixel wide, the handler's expression
  \<^verbatim>\<open>Math.max(0, Math.min(width - 1, v))\<close> is the specification's clamp of every number
  \<open>v\<close>, and it propagates \<^verbatim>\<open>NaN\<close>.
\<close>

lemma clamp_code:
  assumes "0 \<le> hi"
  shows "Math_max (Fin 0 0) (Math_min (Fin hi 0) v) =
           (if v = NaN then NaN else clamp v (Fin 0 0) (Fin hi 0))"
  using assms by (cases v) (auto simp: Math_max_def Math_min_def clamp_def)

lemma clamp_range:
  assumes "v \<noteq> NaN" and "0 \<le> hi"
  shows "num_le (Fin 0 0) (clamp v (Fin 0 0) (Fin hi 0))
       \<and> num_le (clamp v (Fin 0 0) (Fin hi 0)) (Fin hi 0)"
  using assms by (cases v) (auto simp: clamp_def)

section \<open>How the message handler runs\<close>

lemma is_stringE: "is_string v \<Longrightarrow> \<exists>s. v = JStr s"
  by (cases v) auto

lemma console_log_frame:
  "sessions (fst (console_log B vs line st)) = sessions st"
  "ws_sessionId (fst (console_log B vs line st)) = ws_sessionId st"
  "readyState (fst (console_log B vs line st)) = readyState st"
  "pointer (fst (console_log B vs line st)) = pointer st"
  by (simp_all add: console_log_def split: option.splits)

text \<open>No case but \<^verbatim>\<open>setSessionId\<close> writes to the registry or to \<^verbatim>\<open>ws.sessionId\<close>, and
  no case at all closes a connection.\<close>

lemma case_move_frame:
  "sessions (fst (case_move B rob data st)) = sessions st"
  "ws_sessionId (fst (case_move B rob data st)) = ws_sessionId st"
  "readyState (fst (case_move B rob data st)) = readyState st"
  by (simp_all add: case_move_def Let_def split: sum.splits prod.splits)

lemma case_click_frame:
  "sessions (fst (case_click B rob s st)) = sessions st"
  "ws_sessionId (fst (case_click B rob s st)) = ws_sessionId st"
  "readyState (fst (case_click B rob s st)) = readyState st"
  by (simp_all add: case_click_def console_log_frame split: sum.splits)

lemma case_rightClick_frame:
  "sessions (fst (case_rightClick B rob s st)) = sessions st"
  "ws_sessionId (fst (case_rightClick B rob s st)) = ws_sessionId st"
  "readyState (fst (case_rightClick B rob s st)) = readyState st"
  by (simp_all add: case_rightClick_def console_log_frame split: sum.splits)

lemma case_scroll_frame:
  "sessions (fst (case_scroll B rob data s st)) = sessions st"
  "ws_sessionId (fst (case_scroll B rob data s st)) = ws_sessionId st"
  "readyState (fst (case_scroll B rob data s st)) = readyState st"
  by (simp_all add: case_scroll_def console_log_frame split: sum.splits)

lemma case_setSessionId_readyState:
  "readyState (fst (case_setSessionId B c data s st)) = readyState st"
  by (simp add: case_setSessionId_def console_log_frame Let_def split: sum.splits)

lemma case_setSessionId_effect:
  assumes "get_prop data ''sessionId'' = Inr newId" and "truthy newId"
  shows "sessions (fst (case_setSessionId B c data s st)) =
           AList.update newId (s\<lparr>id' := newId\<rparr>) (AList.delete (ws_sessionId st c) (sessions st))"
    and "ws_sessionId (fst (case_setSessionId B c data s st)) = (ws_sessionId st)(c := newId)"
    and "pointer (fst (case_setSessionId B c data s st)) = pointer st"
  using assms by (simp_all add: case_setSessionId_def Let_def console_log_frame)

lemma process_command_readyState:
  "readyState (fst (process_command B rob c data ty s st)) = readyState st"
  by (simp add: process_command_def case_move_frame case_click_frame case_rightClick_frame
      case_scroll_frame case_setSessionId_readyState)

lemma process_command_frame:
  assumes "ty \<noteq> JStr ''setSessionId''"
  shows "sessions (fst (process_command B rob c data ty s st)) = sessions st"
    and "ws_sessionId (fst (process_command B rob c data ty s st)) = ws_sessionId st"
  using assms
  by (simp_all add: process_command_def case_move_frame case_click_frame case_rightClick_frame
      case_scroll_frame)

text \<open>With the capability present, a registered session with a string id and a string
  \<^verbatim>\<open>type\<close>, the body of the \<^verbatim>\<open>try\<close> touches the record, logs the receipt and enters the
  \<^verbatim>\<open>switch\<close>.\<close>

lemma try_block_dispatch:
  assumes "robot E = Some rob"
    and "map_of (sessions st) (ws_sessionId st c) = Some s"
    and "is_string (id' s)"
    and "get_prop data ''type'' = Inr ty" and "is_string ty"
  shows "try_block E c now (Inr data) st =
           process_command (lang E) rob c data ty (s\<lparr>lastActivity := now\<rparr>)
             (st\<lparr>sessions := AList.update (ws_sessionId st c) (s\<lparr>lastActivity := now\<rparr>)
                               (sessions st),
                 console := console st @ [Received (id' s) ty]\<rparr>)"
proof -
  obtain i t where "id' s = JStr i" "ty = JStr t"
    using assms is_stringE by blast
  with assms show ?thesis
    by (simp add: try_block_def console_log_def Let_def)
qed

lemma try_block_readyState: "readyState (fst (try_block E c now parsed st)) = readyState st"
proof (cases parsed)
  case (Inl e)
  then show ?thesis by (simp add: try_block_def)
next
  case (Inr data)
  show ?thesis
  proof (cases "map_of (sessions st) (ws_sessionId st c)")
    case None
    with Inr show ?thesis by (simp add: try_block_def)
  next
    case (Some s)
    with Inr show ?thesis
      by (simp add: try_block_def Let_def console_log_def process_command_readyState
          split: sum.splits option.splits prod.splits)
  qed
qed

lemma on_message_readyState: "readyState (on_message E c now parsed st) = readyState st"
proof (cases "try_block E c now parsed st")
  case (Pair st' r)
  with try_block_readyState [of E c now parsed st] show ?thesis
    by (cases r) (simp_all add: on_message_def)
qed

lemma on_message_frame:
  "sessions (on_message E c now parsed st) = sessions (fst (try_block E c now parsed st))"
  "ws_sessionId (on_message E c now parsed st) = ws_sessionId (fst (try_block E c now parsed st))"
  "pointer (on_message E c now parsed st) = pointer (fst (try_block E c now parsed st))"
  by (simp_all add: on_message_def split: prod.splits option.splits)

lemma try_block_frame:
  assumes "get_prop data ''type'' \<noteq> Inr (JStr ''setSessionId'')"
  shows "sessions (fst (try_block E c now (Inr data) st)) =
           (case map_of (sessions st) (ws_sessionId st c) of
              None \<Rightarrow> sessions st
            | Some s \<Rightarrow> AList.update (ws_sessionId st c) (s\<lparr>lastActivity := now\<rparr>) (sessions st))
       \<and> ws_sessionId (fst (try_block E c now (Inr data) st)) = ws_sessionId st"
proof (cases "get_prop data ''type''")
  case (Inl e)
  then show ?thesis
    by (simp add: try_block_def Let_def split: option.splits)
next
  case (Inr ty)
  with assms have "ty \<noteq> JStr ''setSessionId''" by simp
  with Inr show ?thesis
    by (simp add: try_block_def Let_def console_log_def process_command_frame
          split: sum.splits option.splits prod.splits)
qed

lemma try_block_headless:
  assumes "robot E = None"
  shows "sessions (fst (try_block E c now (Inr data) st)) =
           (case map_of (sessions st) (ws_sessionId st c) of
              None \<Rightarrow> sessions st
            | Some s \<Rightarrow> AList.update (ws_sessionId st c) (s\<lparr>lastActivity := now\<rparr>) (sessions st))"
    and "ws_sessionId (fst (try_block E c now (Inr data) st)) = ws_sessionId st"
    and "pointer (fst (try_block E c now (Inr data) st)) = pointer st"
  using assms
  by (simp_all add: try_block_def Let_def console_log_def
          split: sum.splits option.splits prod.splits)

lemma try_block_headless_console:
  assumes "robot E = None"
    and "map_of (sessions st) (ws_sessionId st c) = Some s"
    and "is_string (id' s)"
    and "get_prop data ''type'' = Inr ty" and "is_string ty"
  shows "try_block E c now (Inr data) st =
           (st\<lparr>sessions := AList.update (ws_sessionId st c) (s\<lparr>lastActivity := now\<rparr>)
                               (sessions st),
               console := console st @ [Received (id' s) ty, RobotNotAvailable]\<rparr>, None)"
proof -
  obtain i t where "id' s = JStr i" "ty = JStr t"
    using assms is_stringE by blast
  with assms show ?thesis
    by (simp add: try_block_def console_log_def Let_def)
qed

text \<open>Touching one record keeps the keys and every other record.\<close>

lemma same_record:
  "\<exists>l. (s::session) = s\<lparr>lastActivity := l\<rparr> \<and> (P \<longrightarrow> l = lastActivity s)"
  by (rule exI [of _ "lastActivity s"]) simp

lemma touch_only:
  fixes reg :: "('k \<times> session) list"
  assumes "reg' = (case map_of reg key of None \<Rightarrow> reg
                   | Some s \<Rightarrow> AList.update key (s\<lparr>lastActivity := now\<rparr>) reg)"
  shows "map fst reg' = map fst reg
       \<and> (\<forall>k s. map_of reg k = Some s \<longrightarrow>
            (\<exists>l. map_of reg' k = Some (s\<lparr>lastActivity := l\<rparr>) \<and> (k \<noteq> key \<longrightarrow> l = lastActivity s)))"
proof (cases "map_of reg key")
  case None
  with assms show ?thesis by (simp add: same_record)
next
  case (Some s0)
  then have "key \<in> set (map fst reg)"
    by (metis map_of_eq_None_iff option.distinct(1) set_map)
  then have keys: "map fst (AList.update key (s0\<lparr>lastActivity := now\<rparr>) reg) = map fst reg"
    by (simp add: update_keys)
  have recs: "\<exists>l. map_of (AList.update key (s0\<lparr>lastActivity := now\<rparr>) reg) k
                     = Some (s\<lparr>lastActivity := l\<rparr>)
                \<and> (k \<noteq> key \<longrightarrow> l = lastActivity s)"
    if "map_of reg k = Some s" for k s
  proof (cases "k = key")
    case True
    with that Some show ?thesis by (auto simp: update_conv')
  next
    case False
    with that show ?thesis by (simp add: update_conv' same_record)
  qed
  from assms Some keys recs show ?thesis by simp
qed

text \<open>After a message that parses, the record the connection addresses carries the new
  \<^verbatim>\<open>lastActivity\<close>, also when the message renamed the session.\<close>

lemma process_command_touch:
  assumes "map_of (sessions st) (ws_sessionId st c) = Some s"
  shows "\<exists>r. map_of (sessions (fst (process_command B rob c data ty s st)))
               (ws_sessionId (fst (process_command B rob c data ty s st)) c) = Some r
             \<and> lastActivity r = lastActivity s"
proof (cases "ty = JStr ''setSessionId''")
  case False
  with assms show ?thesis by (simp add: process_command_frame)
next
  case True
  show ?thesis
  proof (cases "get_prop data ''sessionId''")
    case (Inl e)
    with True assms show ?thesis
      by (simp add: process_command_def case_setSessionId_def)
  next
    case (Inr newId)
    show ?thesis
    proof (cases "truthy newId")
      case False
      with True Inr assms show ?thesis
        by (simp add: process_command_def case_setSessionId_def)
    next
      case t: True
      with True Inr show ?thesis
        by (simp add: process_command_def case_setSessionId_effect update_conv')
    qed
  qed
qed

lemma try_block_touch:
  assumes "map_of (sessions st) (ws_sessionId st c) = Some s"
  shows "\<exists>r. map_of (sessions (fst (try_block E c now (Inr data) st)))
               (ws_sessionId (fst (try_block E c now (Inr data) st)) c) = Some r
             \<and> lastActivity r = now"
proof -
  let ?s = "s\<lparr>lastActivity := now\<rparr>"
  let ?st1 = "st\<lparr>sessions := AList.update (ws_sessionId st c) ?s (sessions st)\<rparr>"
  have 1: "map_of (sessions ?st1) (ws_sessionId ?st1 c) = Some ?s"
    by (simp add: update_conv')
  show ?thesis
  proof (cases "get_prop data ''type''")
    case (Inl e)
    with assms 1 show ?thesis by (simp add: try_block_def Let_def)
  next
    case (Inr ty)
    let ?st2 = "?st1\<lparr>console := console ?st1 @ [Received (id' ?s) ty]\<rparr>"
    have 2: "map_of (sessions ?st2) (ws_sessionId ?st2 c) = Some ?s"
      by (simp add: update_conv')
    show ?thesis
    proof (cases "interpolate (lang E) [id' ?s, ty]")
      case (Some e)
      with assms Inr 1 show ?thesis by (simp add: try_block_def Let_def console_log_def)
    next
      case None
      show ?thesis
      proof (cases "robot E")
        case n: None
        with assms Inr None 1 show ?thesis
          by (simp add: try_block_def Let_def console_log_def update_conv')
      next
        case (Some rob)
        have "try_block E c now (Inr data) st = process_command (lang E) rob c data ty ?s ?st2"
          using assms Inr None Some by (simp add: try_block_def Let_def console_log_def)
        with process_command_touch [OF 2, of "lang E" rob data ty] show ?thesis by simp
      qed
    qed
  qed
qed

text \<open>What \<^verbatim>\<open>setSessionId\<close> with a truthy \<^verbatim>\<open>sessionId\<close> does, whatever the registry holds
  under the new key.\<close>

lemma rename_result:
  assumes "robot E = Some rob"
    and "map_of (sessions st) (ws_sessionId st c) = Some s"
    and "is_string (id' s)"
    and "get_prop data ''type'' = Inr (JStr ''setSessionId'')"
    and "get_prop data ''sessionId'' = Inr newId" and "truthy newId"
  shows "sessions (on_message E c now (Inr data) st) =
           AList.update newId (s\<lparr>id' := newId, lastActivity := now\<rparr>)
             (AList.delete (ws_sessionId st c) (sessions st))"
    and "ws_sessionId (on_message E c now (Inr data) st) = (ws_sessionId st)(c := newId)"
    and "pointer (on_message E c now (Inr data) st) = pointer st"
    and "is_string newId \<Longrightarrow> console (on_message E c now (Inr data) st) =
           console st @ [Received (id' s) (JStr ''setSessionId''), SessionIdUpdated (id' s) newId]"
proof -
  let ?s = "s\<lparr>lastActivity := now\<rparr>"
  let ?st2 = "st\<lparr>sessions := AList.update (ws_sessionId st c) ?s (sessions st),
                 console := console st @ [Received (id' s) (JStr ''setSessionId'')]\<rparr>"
  have tb: "try_block E c now (Inr data) st = case_setSessionId (lang E) c data ?s ?st2"
    using try_block_dispatch [OF assms(1-4), of now] by (simp add: process_command_def)
  note eff = case_setSessionId_effect [OF assms(5,6), of "lang E" c ?s ?st2]
  have upd: "?s\<lparr>id' := newId\<rparr> = s\<lparr>id' := newId, lastActivity := now\<rparr>" by simp
  show "sessions (on_message E c now (Inr data) st) =
           AList.update newId (s\<lparr>id' := newId, lastActivity := now\<rparr>)
             (AList.delete (ws_sessionId st c) (sessions st))"
    using eff(1) by (simp add: on_message_frame tb delete_update_same upd)
  show "ws_sessionId (on_message E c now (Inr data) st) = (ws_sessionId st)(c := newId)"
    using eff(2) by (simp add: on_message_frame tb)
  show "pointer (on_message E c now (Inr data) st) = pointer st"
    using eff(3) by (simp add: on_message_frame tb)
  show "console (on_message E c now (Inr data) st) =
           console st @ [Received (id' s) (JStr ''setSessionId''), SessionIdUpdated (id' s) newId]"
    if str: "is_string newId"
  proof -
    obtain i n where "id' s = JStr i" "newId = JStr n"
      using assms(3) str is_stringE by blast
    with assms(5,6) show ?thesis
      by (simp add: on_message_def tb case_setSessionId_def console_log_def Let_def)
  qed
qed

section \<open>A dispatched move\<close>

text \<open>
  \<^bold>\<open>C1.\<close> A \<^verbatim>\<open>move\<close> with numeric deltas \<open>dx\<close>, \<open>dy\<close>, received on a connection whose
  session is registered under a string id while the capability is present and reports a
  finite position \<open>(px, py)\<close> and the bounds \<open>(w, h)\<close> of a screen of at least one pixel
  each way: the handler calls \<^verbatim>\<open>moveMouse\<close> with exactly
  \<open>(clamp (px + dx) 0 (w - 1), clamp (py + dy) 0 (h - 1))\<close>, where \<open>+\<close> is the addition of
  the language's numbers (the sum, rounded to a double); the pointer afterwards is what that
  call returns, and both coordinates lie in \<open>[0, w - 1] \<times> [0, h - 1]\<close>. For an integer
  position and an integer delta whose sum is below \<open>2\<^sup>5\<^sup>3\<close> in magnitude, \<open>px + dx\<close> is
  their exact sum. At the stub capability, from \<open>(500, 500)\<close> on \<open>1920 \<times> 1080\<close>, the
  deltas \<open>10\<close> and \<open>-5\<close> give \<open>(510, 495)\<close>.
\<close>

theorem move_sets_clamped_position:
  assumes "robot E = Some rob"
    and "map_of (sessions st) (ws_sessionId st c) = Some s"
    and "is_string (id' s)"
    and "get_prop data ''type'' = Inr (JStr ''move'')"
    and "get_prop data ''deltaX'' = Inr (JNum dx)" and "dx \<noteq> NaN"
    and "get_prop data ''deltaY'' = Inr (JNum dy)" and "dy \<noteq> NaN"
    and "getScreenSize rob (pointer st) = Inr (Fin w 0, Fin h 0)"
    and "1 \<le> w" and "w \<le> 2 ^ 53" and "1 \<le> h" and "h \<le> 2 ^ 53"
    and "getMousePos rob (pointer st) = Inr (Fin px kx, Fin py ky)"
  shows "(let newX = clamp (num_add (Fin px kx) dx) (Fin 0 0) (Fin (w - 1) 0);
              newY = clamp (num_add (Fin py ky) dy) (Fin 0 0) (Fin (h - 1) 0)
          in pointer (on_message E c now (Inr data) st) =
               (case moveMouse rob newX newY (pointer st) of Inl e \<Rightarrow> pointer st | Inr p \<Rightarrow> p)
             \<and> num_le (Fin 0 0) newX \<and> num_le newX (Fin (w - 1) 0)
             \<and> num_le (Fin 0 0) newY \<and> num_le newY (Fin (h - 1) 0))
       \<and> (\<forall>a. kx = 0 \<and> dx = Fin a 0 \<and> \<bar>px + a\<bar> < 2 ^ 53 \<longrightarrow>
              num_add (Fin px kx) dx = Fin (px + a) 0)
       \<and> (\<forall>b. ky = 0 \<and> dy = Fin b 0 \<and> \<bar>py + b\<bar> < 2 ^ 53 \<longrightarrow>
              num_add (Fin py ky) dy = Fin (py + b) 0)"
proof -
  let ?s = "s\<lparr>lastActivity := now\<rparr>"
  let ?st2 = "st\<lparr>sessions := AList.update (ws_sessionId st c) ?s (sessions st),
                 console := console st @ [Received (id' s) (JStr ''move'')]\<rparr>"
  have tb: "try_block E c now (Inr data) st = case_move (lang E) rob data ?st2"
    using try_block_dispatch [OF assms(1-4), of now] by (simp add: process_command_def)
  have nx: "num_add (Fin px kx) dx \<noteq> NaN" and ny: "num_add (Fin py ky) dy \<noteq> NaN"
    using assms(6,8) by (simp_all add: num_add_Fin_NaN)
  have w: "0 \<le> w - 1" and h: "0 \<le> h - 1"
    using assms by simp_all
  note bw = width_minus_one [OF assms(10,11)] and bh = width_minus_one [OF assms(12,13)]
  have cm: "case_move (lang E) rob data ?st2 =
              (case moveMouse rob (clamp (num_add (Fin px kx) dx) (Fin 0 0) (Fin (w - 1) 0))
                      (clamp (num_add (Fin py ky) dy) (Fin 0 0) (Fin (h - 1) 0)) (pointer st) of
                 Inl e \<Rightarrow> (?st2, Some e)
               | Inr p \<Rightarrow> (?st2\<lparr>pointer := p\<rparr>, None))"
    using assms(5,7,9,14) nx ny
    by (simp add: case_move_def js_add_def bw bh clamp_code [OF w] clamp_code [OF h] Let_def)
  have ptr: "pointer (on_message E c now (Inr data) st) =
               (case moveMouse rob (clamp (num_add (Fin px kx) dx) (Fin 0 0) (Fin (w - 1) 0))
                      (clamp (num_add (Fin py ky) dy) (Fin 0 0) (Fin (h - 1) 0)) (pointer st) of
                  Inl e \<Rightarrow> pointer st | Inr p \<Rightarrow> p)"
    by (simp add: on_message_frame tb cm split: sum.splits)
  show ?thesis
    unfolding Let_def
    using ptr clamp_range [OF nx w] clamp_range [OF ny h] num_add_int
    by simp
qed

theorem move_sets_clamped_position_witness:
  "position (pointer (on_message desktop 1 5
      (msg [(''type'', JStr ''move''), (''deltaX'', JNum (Fin 10 0)),
            (''deltaY'', JNum (Fin (- 5) 0))])
      two_sessions)) = (Fin 510 0, Fin 495 0)
   \<and> num_le (Fin 0 0) (Fin 510 0) \<and> num_le (Fin 510 0) (Fin (1920 - 1) 0)
   \<and> num_le (Fin 0 0) (Fin 495 0) \<and> num_le (Fin 495 0) (Fin (1080 - 1) 0)"
proof -
  let ?data = "JObj 0 [(''type'', JStr ''move''), (''deltaX'', JNum (Fin 10 0)),
                       (''deltaY'', JNum (Fin (- 5) 0))]"
  have 1: "robot desktop = Some stub_robot"
    by (simp add: desktop_def)
  have 2: "map_of (sessions two_sessions) (ws_sessionId two_sessions 1) = Some session_a"
    by (simp add: two_sessions_def)
  have 3: "is_string (id' session_a)"
    by (simp add: session_a_def)
  have 4: "get_prop ?data ''type'' = Inr (JStr ''move'')"
    by simp
  have 5: "get_prop ?data ''deltaX'' = Inr (JNum (Fin 10 0))"
    by simp
  have 6: "get_prop ?data ''deltaY'' = Inr (JNum (Fin (- 5) 0))"
    by simp
  have 7: "getScreenSize stub_robot (pointer two_sessions) = Inr (Fin 1920 0, Fin 1080 0)"
    by (simp add: stub_robot_def two_sessions_def)
  have 8: "getMousePos stub_robot (pointer two_sessions) = Inr (Fin 500 0, Fin 500 0)"
    by (simp add: stub_robot_def two_sessions_def)
  from move_sets_clamped_position [OF 1 2 3 4 5 _ 6 _ 7 _ _ _ _ 8, of 5]
  show ?thesis
    by (simp add: clamp_def round_double_int stub_robot_def msg_def)
qed

section \<open>Two moves, one handler after the other\<close>

text \<open>
  The handler is a synchronous callback: it reads the position, computes and writes within
  one call. When the handlers of a move by \<open>10\<close> on one connection and of a move by \<open>-4\<close>
  on another run one after the other, in either order, from \<open>(500, 500)\<close> on
  \<open>1920 \<times> 1080\<close>, the pointer ends at \<open>(506, 500)\<close>.
\<close>

lemma two_moves_either_order:
  "position (pointer
     (on_message desktop 2 6
        (msg [(''type'', JStr ''move''), (''deltaX'', JNum (Fin (- 4) 0)),
              (''deltaY'', JNum (Fin 0 0))])
        (on_message desktop 1 5
           (msg [(''type'', JStr ''move''), (''deltaX'', JNum (Fin 10 0)),
                 (''deltaY'', JNum (Fin 0 0))])
           two_sessions))) = (Fin 506 0, Fin 500 0)
   \<and> position (pointer
     (on_message desktop 1 6
        (msg [(''type'', JStr ''move''), (''deltaX'', JNum (Fin 10 0)),
              (''deltaY'', JNum (Fin 0 0))])
        (on_message desktop 2 5
           (msg [(''type'', JStr ''move''), (''deltaX'', JNum (Fin (- 4) 0)),
                 (''deltaY'', JNum (Fin 0 0))])
           two_sessions))) = (Fin 506 0, Fin 500 0)"
  by (simp add: on_message_def try_block_def process_command_def case_move_def console_log_def
      js_add_def num_sub_def Math_max_def Math_min_def round_double_int
      desktop_def stub_robot_def stub_builtins_def
      two_sessions_def session_a_def session_b_def msg_def Let_def)

section \<open>Renaming a session\<close>

text \<open>
  \<^bold>\<open>C8.\<close> A \<^verbatim>\<open>setSessionId\<close> with a truthy \<^verbatim>\<open>sessionId\<close> other than the connection's
  current id, processed with the capability present for a session registered under a
  string id: afterwards the registry holds the original record under the new id (the same
  connection, address and \<^verbatim>\<open>connectedAt\<close>; its \<^verbatim>\<open>id\<close> is the new id and it has been
  touched), holds nothing under the old id, and the connection addresses the new id.
\<close>

theorem rename_moves_record:
  assumes "robot E = Some rob"
    and "map_of (sessions st) (ws_sessionId st c) = Some s"
    and "is_string (id' s)"
    and "get_prop data ''type'' = Inr (JStr ''setSessionId'')"
    and "get_prop data ''sessionId'' = Inr newId" and "truthy newId"
    and "newId \<noteq> ws_sessionId st c"
  shows "map_of (sessions (on_message E c now (Inr data) st)) newId =
           Some (s\<lparr>id' := newId, lastActivity := now\<rparr>)
       \<and> map_of (sessions (on_message E c now (Inr data) st)) (ws_sessionId st c) = None
       \<and> ws_sessionId (on_message E c now (Inr data) st) c = newId"
  using rename_result(1,2) [OF assms(1-6), where now = now] assms(7)
  by (simp add: update_conv' delete_conv')

theorem rename_moves_record_witness:
  "map_of (sessions (on_message desktop 1 5
      (msg [(''type'', JStr ''setSessionId''), (''sessionId'', JStr ''client_wxyz'')]) two_sessions))
      (JStr ''client_wxyz'')
     = Some \<lparr>id' = JStr ''client_wxyz'', ws = 1, ip = ''10.0.0.1'', connectedAt = 0,
             lastActivity = 5\<rparr>
   \<and> map_of (sessions (on_message desktop 1 5
      (msg [(''type'', JStr ''setSessionId''), (''sessionId'', JStr ''client_wxyz'')]) two_sessions))
      (JStr ''session_1'') = None
   \<and> ws_sessionId (on_message desktop 1 5
      (msg [(''type'', JStr ''setSessionId''), (''sessionId'', JStr ''client_wxyz'')]) two_sessions) 1
     = JStr ''client_wxyz''"
proof -
  let ?data = "JObj 0 [(''type'', JStr ''setSessionId''), (''sessionId'', JStr ''client_wxyz'')]"
  have 1: "robot desktop = Some stub_robot"
    by (simp add: desktop_def)
  have 2: "map_of (sessions two_sessions) (ws_sessionId two_sessions 1) = Some session_a"
    by (simp add: two_sessions_def)
  have 3: "is_string (id' session_a)"
    by (simp add: session_a_def)
  have 4: "get_prop ?data ''type'' = Inr (JStr ''setSessionId'')"
    by simp
  have 5: "get_prop ?data ''sessionId'' = Inr (JStr ''client_wxyz'')"
    by simp
  have 6: "truthy (JStr ''client_wxyz'')"
    by simp
  have 7: "JStr ''client_wxyz'' \<noteq> ws_sessionId two_sessions 1"
    by (simp add: two_sessions_def)
  from rename_moves_record [OF 1 2 3 4 5 6 7, of 5]
  show ?thesis by (simp add: msg_def two_sessions_def session_a_def)
qed

text \<open>
  \<^bold>\<open>C3\<close>, as the code has it. The handler has no check for a collision: a
  \<^verbatim>\<open>setSessionId\<close> whose new id is the key of another registered session is carried out like
  any other. The renaming session's record replaces the other session's record under the
  new id, the old id is removed, the connection addresses the new id, and the only lines
  logged are the receipt and the update: no error is raised.
\<close>

theorem rename_collision_overwrites:
  assumes "robot E = Some rob"
    and "map_of (sessions st) (ws_sessionId st c) = Some s"
    and "is_string (id' s)"
    and "get_prop data ''type'' = Inr (JStr ''setSessionId'')"
    and "get_prop data ''sessionId'' = Inr newId" and "truthy newId" and "is_string newId"
    and "newId \<noteq> ws_sessionId st c"
    and "map_of (sessions st) newId = Some other" and "ws other \<noteq> ws s"
  shows "map_of (sessions (on_message E c now (Inr data) st)) newId =
           Some (s\<lparr>id' := newId, lastActivity := now\<rparr>)
       \<and> map_of (sessions (on_message E c now (Inr data) st)) newId \<noteq> Some other
       \<and> map_of (sessions (on_message E c now (Inr data) st)) (ws_sessionId st c) = None
       \<and> ws_sessionId (on_message E c now (Inr data) st) c = newId
       \<and> console (on_message E c now (Inr data) st) =
           console st @ [Received (id' s) (JStr ''setSessionId''), SessionIdUpdated (id' s) newId]"
proof -
  have "s\<lparr>id' := newId, lastActivity := now\<rparr> \<noteq> other"
    using assms(10) by auto
  with rename_result [OF assms(1-6), where now = now] assms(7,8)
  show ?thesis by (simp add: update_conv' delete_conv')
qed

theorem rename_collision_overwrites_witness:
  "map_of (sessions (on_message desktop 1 5
      (msg [(''type'', JStr ''setSessionId''), (''sessionId'', JStr ''client_abcd'')]) two_sessions))
      (JStr ''client_abcd'')
     = Some \<lparr>id' = JStr ''client_abcd'', ws = 1, ip = ''10.0.0.1'', connectedAt = 0,
             lastActivity = 5\<rparr>
   \<and> console (on_message desktop 1 5
      (msg [(''type'', JStr ''setSessionId''), (''sessionId'', JStr ''client_abcd'')]) two_sessions)
     = [Received (JStr ''session_1'') (JStr ''setSessionId''),
        SessionIdUpdated (JStr ''session_1'') (JStr ''client_abcd'')]"
proof -
  let ?data = "JObj 0 [(''type'', JStr ''setSessionId''), (''sessionId'', JStr ''client_abcd'')]"
  have 1: "robot desktop = Some stub_robot"
    by (simp add: desktop_def)
  have 2: "map_of (sessions two_sessions) (ws_sessionId two_sessions 1) = Some session_a"
    by (simp add: two_sessions_def)
  have 3: "is_string (id' session_a)"
    by (simp add: session_a_def)
  have 4: "get_prop ?data ''type'' = Inr (JStr ''setSessionId'')"
    by simp
  have 5: "get_prop ?data ''sessionId'' = Inr (JStr ''client_abcd'')"
    by simp
  have 6: "truthy (JStr ''client_abcd'')"
    by simp
  have 7: "is_string (JStr ''client_abcd'')"
    by simp
  have 8: "JStr ''client_abcd'' \<noteq> ws_sessionId two_sessions 1"
    by (simp add: two_sessions_def)
  have 9: "map_of (sessions two_sessions) (JStr ''client_abcd'') = Some session_b"
    by (simp add: two_sessions_def)
  have 10: "ws session_b \<noteq> ws session_a"
    by (simp add: session_a_def session_b_def)
  from rename_collision_overwrites [OF 1 2 3 4 5 6 7 8 9 10, of 5]
  show ?thesis by (simp add: msg_def two_sessions_def session_a_def)
qed

text \<open>
  \<^bold>\<open>C3\<close>, as the claim states it, fails. With \<^verbatim>\<open>session_1\<close> and \<^verbatim>\<open>client_abcd\<close>
  registered, the first connection asks for the id \<^verbatim>\<open>client_abcd\<close>: the rename is not
  rejected and neither entry is left untouched. The registry is left with the single key
  \<^verbatim>\<open>client_abcd\<close>, holding the first connection's record; the record of the second
  connection (\<open>session_b\<close>, connection 2) is gone.
\<close>

theorem rename_collision_not_rejected:
  "sessions (on_message desktop 1 5
      (msg [(''type'', JStr ''setSessionId''), (''sessionId'', JStr ''client_abcd'')]) two_sessions)
     = [(JStr ''client_abcd'',
         \<lparr>id' = JStr ''client_abcd'', ws = 1, ip = ''10.0.0.1'', connectedAt = 0,
          lastActivity = 5\<rparr>)]
   \<and> sessions two_sessions
     = [(JStr ''session_1'',
         \<lparr>id' = JStr ''session_1'', ws = 1, ip = ''10.0.0.1'', connectedAt = 0,
          lastActivity = 0\<rparr>),
        (JStr ''client_abcd'',
         \<lparr>id' = JStr ''client_abcd'', ws = 2, ip = ''10.0.0.2'', connectedAt = 0,
          lastActivity = 1000\<rparr>)]"
  by (simp add: on_message_def try_block_def process_command_def case_setSessionId_def
      console_log_def desktop_def stub_builtins_def
      two_sessions_def session_a_def session_b_def msg_def Let_def)

section \<open>Without the capability\<close>

text \<open>
  \<^bold>\<open>C4\<close>, as the code has it. The guard \<^verbatim>\<open>if (!robot) return\<close> stands before the
  \<^verbatim>\<open>switch\<close>, so without the capability every message, a \<^verbatim>\<open>setSessionId\<close> included, is a
  no-op: the pointer, the connections, the id each connection addresses and the keys of the
  registry are unchanged, and no record changes but for the \<^verbatim>\<open>lastActivity\<close> of the
  receiving session. For a registered session with a string id and a message with a string
  \<^verbatim>\<open>type\<close>, exactly the receipt and \<^verbatim>\<open>Robot control not available\<close> are logged. The handler
  returns on every input and closes no connection.
\<close>

theorem headless_every_command_is_noop:
  assumes "robot E = None"
  shows "pointer (on_message E c now parsed st) = pointer st
       \<and> readyState (on_message E c now parsed st) = readyState st
       \<and> ws_sessionId (on_message E c now parsed st) = ws_sessionId st
       \<and> map fst (sessions (on_message E c now parsed st)) = map fst (sessions st)
       \<and> (\<forall>k s. map_of (sessions st) k = Some s \<longrightarrow>
            (\<exists>l. map_of (sessions (on_message E c now parsed st)) k = Some (s\<lparr>lastActivity := l\<rparr>)
                \<and> (k \<noteq> ws_sessionId st c \<longrightarrow> l = lastActivity s)))
       \<and> (\<forall>data s ty. parsed = Inr data \<and> map_of (sessions st) (ws_sessionId st c) = Some s
              \<and> is_string (id' s) \<and> get_prop data ''type'' = Inr ty \<and> is_string ty \<longrightarrow>
            console (on_message E c now parsed st) =
              console st @ [Received (id' s) ty, RobotNotAvailable])"
proof -
  have log: "console (on_message E c now parsed st) =
               console st @ [Received (id' s) ty, RobotNotAvailable]"
    if "parsed = Inr data" "map_of (sessions st) (ws_sessionId st c) = Some s"
       "is_string (id' s)" "get_prop data ''type'' = Inr ty" "is_string ty" for data s ty
    using try_block_headless_console [OF assms that(2-5), of now] that(1)
    by (simp add: on_message_def)
  show ?thesis
  proof (cases parsed)
    case (Inl e)
    then show ?thesis
      by (simp add: on_message_frame on_message_readyState try_block_def same_record)
  next
    case (Inr data)
    from try_block_headless [OF assms, of c now data st] Inr
    have "sessions (on_message E c now parsed st) =
          (case map_of (sessions st) (ws_sessionId st c) of None \<Rightarrow> sessions st
           | Some s \<Rightarrow> AList.update (ws_sessionId st c) (s\<lparr>lastActivity := now\<rparr>) (sessions st))"
      and "ws_sessionId (on_message E c now parsed st) = ws_sessionId st"
      and "pointer (on_message E c now parsed st) = pointer st"
      by (simp_all add: on_message_frame)
    with touch_only [of "sessions (on_message E c now parsed st)" "sessions st"
        "ws_sessionId st c" now] log
    show ?thesis by (simp add: on_message_readyState)
  qed
qed

theorem headless_every_command_is_noop_witness:
  "robot headless = None
   \<and> pointer (on_message headless 1 5 (msg [(''type'', JStr ''click'')]) two_sessions)
       = pointer two_sessions
   \<and> console (on_message headless 1 5 (msg [(''type'', JStr ''click'')]) two_sessions)
       = [Received (JStr ''session_1'') (JStr ''click''), RobotNotAvailable]"
proof -
  have 1: "robot headless = None"
    by (simp add: headless_def)
  have 2: "map_of (sessions two_sessions) (ws_sessionId two_sessions 1) = Some session_a"
    by (simp add: two_sessions_def)
  have 3: "is_string (id' session_a)"
    by (simp add: session_a_def)
  have 4: "get_prop (JObj 0 [(''type'', JStr ''click'')]) ''type'' = Inr (JStr ''click'')"
    by simp
  from headless_every_command_is_noop
         [OF 1, of 1 5 "msg [(''type'', JStr ''click'')]" two_sessions] 1 2 3 4
  show ?thesis
    by (simp add: msg_def session_a_def two_sessions_def)
qed

text \<open>
  \<^bold>\<open>C4\<close>, as the claim states it, fails in its second part: without the capability a
  \<^verbatim>\<open>setSessionId\<close> does not take effect. The first connection asks for the id
  \<^verbatim>\<open>client_wxyz\<close>; the keys of the registry and the id the connection addresses stay as
  they were.
\<close>

theorem headless_rename_ignored:
  "map fst (sessions (on_message headless 1 5
      (msg [(''type'', JStr ''setSessionId''), (''sessionId'', JStr ''client_wxyz'')]) two_sessions))
     = [JStr ''session_1'', JStr ''client_abcd'']
   \<and> ws_sessionId (on_message headless 1 5
      (msg [(''type'', JStr ''setSessionId''), (''sessionId'', JStr ''client_wxyz'')]) two_sessions) 1
     = JStr ''session_1''"
  by (simp add: on_message_def try_block_def console_log_def headless_def stub_builtins_def
      two_sessions_def session_a_def session_b_def msg_def Let_def)

section \<open>Messages that do not parse, and messages that are no command\<close>

text \<open>
  \<^bold>\<open>C5\<close>, as the code has it. A message on which \<^verbatim>\<open>JSON.parse\<close> throws is dropped: the
  handler returns the state it was given with one diagnostic added to the console, so no
  \<^verbatim>\<open>lastActivity\<close> changes and no connection is closed. What updates \<^verbatim>\<open>lastActivity\<close> is
  any message that parses as JSON, a well-formed command or not: after it, the record the
  connection addresses carries the new time.
\<close>

theorem unparseable_message_dropped:
  "on_message E c now (Inl e) st = st\<lparr>console := console st @ [ErrorProcessing e]\<rparr>
   \<and> (map_of (sessions st) (ws_sessionId st c) = Some s \<longrightarrow>
        map_option lastActivity
          (map_of (sessions (on_message E c now (Inr data) st))
             (ws_sessionId (on_message E c now (Inr data) st) c)) = Some now)"
proof
  show "on_message E c now (Inl e) st = st\<lparr>console := console st @ [ErrorProcessing e]\<rparr>"
    by (simp add: on_message_def try_block_def)
  show "map_of (sessions st) (ws_sessionId st c) = Some s \<longrightarrow>
        map_option lastActivity
          (map_of (sessions (on_message E c now (Inr data) st))
             (ws_sessionId (on_message E c now (Inr data) st) c)) = Some now"
    using try_block_touch [of st c s E now data] by (auto simp: on_message_frame)
qed

theorem unparseable_message_dropped_witness:
  "on_message desktop 1 5 (Inl SyntaxError) two_sessions
     = two_sessions\<lparr>console := [ErrorProcessing SyntaxError]\<rparr>
   \<and> map_of (sessions two_sessions) (ws_sessionId two_sessions 1) = Some session_a
   \<and> map_option lastActivity
       (map_of (sessions (on_message desktop 1 5 (msg [(''type'', JStr ''click'')]) two_sessions))
          (ws_sessionId (on_message desktop 1 5 (msg [(''type'', JStr ''click'')]) two_sessions) 1))
     = Some 5"
proof -
  have 1: "map_of (sessions two_sessions) (ws_sessionId two_sessions 1) = Some session_a"
    by (simp add: two_sessions_def)
  have 2: "console two_sessions = []"
    by (simp add: two_sessions_def)
  from unparseable_message_dropped
         [of desktop 1 5 SyntaxError two_sessions session_a "JObj 0 [(''type'', JStr ''click'')]"]
       1 2
  show ?thesis by (simp add: msg_def)
qed

text \<open>
  \<^bold>\<open>C5\<close>, as the claim states it, fails. The message \<^verbatim>\<open>null\<close> parses as JSON and is not a
  command (reading its \<^verbatim>\<open>type\<close> throws), yet the \<^verbatim>\<open>lastActivity\<close> of the receiving
  session, \<open>0\<close> before, is \<open>5\<close> after.
\<close>

theorem null_message_touches:
  "map (\<lambda>(k, s). lastActivity s) (sessions two_sessions) = [0, 1000]
   \<and> map (\<lambda>(k, s). lastActivity s)
       (sessions (on_message desktop 1 5 (Inr JNull) two_sessions)) = [5, 1000]"
  by (simp add: on_message_def try_block_def two_sessions_def session_a_def session_b_def Let_def)

section \<open>A move whose deltas are not numbers\<close>






section \<open>What a message may change in the registry\<close>

text \<open>
  \<^bold>\<open>C10.\<close> A message that is not a \<^verbatim>\<open>setSessionId\<close> (its \<^verbatim>\<open>type\<close> is another value, or
  cannot be read, or the message does not parse) leaves the keys of the registry, in their
  order, and the id every connection addresses as they were, and every record as it was
  except for the \<^verbatim>\<open>lastActivity\<close> of the record the receiving connection addresses.
\<close>

theorem only_setSessionId_alters_registry:
  assumes "\<forall>data. parsed = Inr data \<longrightarrow> get_prop data ''type'' \<noteq> Inr (JStr ''setSessionId'')"
  shows "map fst (sessions (on_message E c now parsed st)) = map fst (sessions st)
       \<and> ws_sessionId (on_message E c now parsed st) = ws_sessionId st
       \<and> (\<forall>k s. map_of (sessions st) k = Some s \<longrightarrow>
            (\<exists>l. map_of (sessions (on_message E c now parsed st)) k = Some (s\<lparr>lastActivity := l\<rparr>)
                \<and> (k \<noteq> ws_sessionId st c \<longrightarrow> l = lastActivity s)))"
proof (cases parsed)
  case (Inl e)
  then show ?thesis
    by (simp add: on_message_frame try_block_def same_record)
next
  case (Inr data)
  with assms have ty: "get_prop data ''type'' \<noteq> Inr (JStr ''setSessionId'')"
    by simp
  from try_block_frame [OF ty, of E c now st] Inr
  have "sessions (on_message E c now parsed st) =
          (case map_of (sessions st) (ws_sessionId st c) of None \<Rightarrow> sessions st
           | Some s \<Rightarrow> AList.update (ws_sessionId st c) (s\<lparr>lastActivity := now\<rparr>) (sessions st))"
    and "ws_sessionId (on_message E c now parsed st) = ws_sessionId st"
    by (simp_all add: on_message_frame)
  with touch_only [of "sessions (on_message E c now parsed st)" "sessions st"
      "ws_sessionId st c" now]
  show ?thesis by simp
qed

theorem only_setSessionId_alters_registry_witness:
  "map fst (sessions (on_message desktop 1 5 (msg [(''type'', JStr ''click'')]) two_sessions))
     = [JStr ''session_1'', JStr ''client_abcd'']
   \<and> ws_sessionId (on_message desktop 1 5 (msg [(''type'', JStr ''click'')]) two_sessions) 2
     = JStr ''client_abcd''"
proof -
  have "\<forall>data. msg [(''type'', JStr ''click'')] = Inr data \<longrightarrow>
          get_prop data ''type'' \<noteq> Inr (JStr ''setSessionId'')"
    by (auto simp: msg_def)
  from only_setSessionId_alters_registry [OF this, of desktop 1 5 two_sessions]
  show ?thesis by (simp add: two_sessions_def)
qed

section \<open>The sweep of idle sessions\<close>

lemma close_twice:
  "(\<lambda>w. if (if r w = (1::nat) \<and> a = w then 2 else r w) = 1 \<and> Q w then 2
        else (if r w = 1 \<and> a = w then 2 else r w)) =
   (\<lambda>w. if r w = 1 \<and> (a = w \<or> Q w) then 2 else r w)"
  by (rule ext) auto

text \<open>
  The loop, over entries whose keys are strings, runs to its end. It removes the keys of
  the stale entries, starts the close of their open connections, and leaves the pointer
  and the ids the connections address alone.
\<close>

lemma sweep_loop_result:
  assumes "\<forall>(k, s) \<in> set xs. is_string k"
  shows "\<exists>st' n'. sweep_loop B now xs st n = Inr (st', n')
           \<and> sessions st' =
               filter (\<lambda>(k, s). \<not> (\<exists>s'. (k, s') \<in> set xs \<and> stale now s')) (sessions st)
           \<and> readyState st' =
               (\<lambda>w. if readyState st w = 1 \<and> (\<exists>k s. (k, s) \<in> set xs \<and> stale now s \<and> ws s = w)
                    then 2 else readyState st w)
           \<and> pointer st' = pointer st \<and> ws_sessionId st' = ws_sessionId st"
  using assms
proof (induction xs arbitrary: st n)
  case Nil
  then show ?case by simp
next
  case (Cons x xs)
  obtain k s where x: "x = (k, s)"
    by (cases x)
  from Cons.prems x obtain i where k: "k = JStr i" and rest: "\<forall>(k, s) \<in> set xs. is_string k"
    using is_stringE by auto
  show ?case
  proof (cases "stale now s")
    case False
    have eq1: "(\<exists>s'. (k', s') \<in> set (x # xs) \<and> stale now s') =
               (\<exists>s'. (k', s') \<in> set xs \<and> stale now s')" for k'
      using False x by auto
    have eq2: "(\<exists>k s. (k, s) \<in> set (x # xs) \<and> stale now s \<and> ws s = w) =
               (\<exists>k s. (k, s) \<in> set xs \<and> stale now s \<and> ws s = w)" for w
      using False x by auto
    have step: "sweep_loop B now (x # xs) st n = sweep_loop B now xs st n"
      using False x by (simp add: stale_def)
    from Cons.IH [OF rest, of st n] show ?thesis
      unfolding step eq1 eq2 .
  next
    case True
    let ?st1 = "st\<lparr>console := console st @ [CleaningUp k (now - lastActivity s)]\<rparr>"
    let ?st2 = "if readyState ?st1 (ws s) = 1
                then ?st1\<lparr>readyState := (readyState ?st1)(ws s := 2)\<rparr> else ?st1"
    let ?st3 = "?st2\<lparr>sessions := AList.delete k (sessions ?st2)\<rparr>"
    have eq1: "(\<exists>s'. (k', s') \<in> set (x # xs) \<and> stale now s') =
               (k' = k \<or> (\<exists>s'. (k', s') \<in> set xs \<and> stale now s'))" for k'
      using True x by auto
    have eq2: "(\<exists>k s. (k, s) \<in> set (x # xs) \<and> stale now s \<and> ws s = w) =
               (ws s = w \<or> (\<exists>k s. (k, s) \<in> set xs \<and> stale now s \<and> ws s = w))" for w
      using True x by auto
    have step: "sweep_loop B now (x # xs) st n = sweep_loop B now xs ?st3 (n + 1)"
    proof -
      have st: "(now - lastActivity s > SESSION_TIMEOUT) = True"
        using True by (simp add: stale_def)
      have tk: "console_log B [k] (CleaningUp k (now - lastActivity s)) st = (?st1, None)"
        using k by (simp add: console_log_def)
      show ?thesis
        unfolding x by (simp only: sweep_loop.simps Let_def st if_True tk prod.case option.case)
    qed
    have s3: "sessions ?st3 = filter (\<lambda>(k', s). k \<noteq> k') (sessions st)"
      by (simp add: AList.delete_eq)
    have r3: "readyState ?st3 =
                (\<lambda>w. if readyState st w = 1 \<and> ws s = w then 2 else readyState st w)"
      by (auto simp: fun_eq_iff)
    have p3: "pointer ?st3 = pointer st" "ws_sessionId ?st3 = ws_sessionId st"
      by simp_all
    from Cons.IH [OF rest, of ?st3 "n + 1"] obtain st' n'
      where r: "sweep_loop B now xs ?st3 (n + 1) = Inr (st', n')"
        and s: "sessions st' =
                  filter (\<lambda>(k, s). \<not> (\<exists>s'. (k, s') \<in> set xs \<and> stale now s')) (sessions ?st3)"
        and rs: "readyState st' =
               (\<lambda>w. if readyState ?st3 w = 1 \<and> (\<exists>k s. (k, s) \<in> set xs \<and> stale now s \<and> ws s = w)
                    then 2 else readyState ?st3 w)"
        and p: "pointer st' = pointer ?st3" "ws_sessionId st' = ws_sessionId ?st3"
      by blast
    have s': "sessions st' =
                filter (\<lambda>(k, s). \<not> (\<exists>s'. (k, s') \<in> set (x # xs) \<and> stale now s')) (sessions st)"
      unfolding s s3 eq1 filter_filter by (rule filter_cong) auto
    have rs': "readyState st' =
               (\<lambda>w. if readyState st w = 1
                       \<and> (\<exists>k s. (k, s) \<in> set (x # xs) \<and> stale now s \<and> ws s = w)
                    then 2 else readyState st w)"
      unfolding rs r3 eq2 by (rule close_twice)
    from r s' rs' p p3 show ?thesis
      unfolding step by simp
  qed
qed

text \<open>
  Over a registry whose keys are distinct strings the sweep at \<open>now\<close> runs to its end.
  Every registered session with \<open>now - lastActivity > SESSION_TIMEOUT\<close> is no longer
  registered afterwards and its connection is no longer open; every other registered
  session is still registered with the same record, and its connection is as it was
  unless a stale session shares it.
\<close>

lemma sweep_with_string_keys:
  assumes "distinct (map fst (sessions st))"
    and "\<forall>(k, s) \<in> set (sessions st). is_string k"
  shows "\<exists>st'. sweep E now st = Inr st'
           \<and> (\<forall>(k, s) \<in> set (sessions st).
                (stale now s \<longrightarrow> map_of (sessions st') k = None \<and> readyState st' (ws s) \<noteq> 1)
              \<and> (\<not> stale now s \<longrightarrow> map_of (sessions st') k = Some s
                   \<and> ((\<forall>(k', s') \<in> set (sessions st). stale now s' \<longrightarrow> ws s' \<noteq> ws s) \<longrightarrow>
                        readyState st' (ws s) = readyState st (ws s))))"
proof -
  let ?P = "\<lambda>(k, s). \<not> (\<exists>s'. (k, s') \<in> set (sessions st) \<and> stale now s')"
  from sweep_loop_result [OF assms(2), of "lang E" now st 0] obtain st1 n1
    where r: "sweep_loop (lang E) now (sessions st) st 0 = Inr (st1, n1)"
      and s: "sessions st1 = filter ?P (sessions st)"
      and rs: "readyState st1 =
               (\<lambda>w. if readyState st w = 1
                       \<and> (\<exists>k s. (k, s) \<in> set (sessions st) \<and> stale now s \<and> ws s = w)
                    then 2 else readyState st w)"
    by blast
  let ?st' = "if n1 > 0
              then st1\<lparr>console := console st1 @ [CleanedUp n1 (length (sessions st1))]\<rparr>
              else st1"
  have sw: "sweep E now st = Inr ?st'"
    using r by (simp add: sweep_def)
  have s': "sessions ?st' = filter ?P (sessions st)" and rs': "readyState ?st' = readyState st1"
    using s by simp_all
  have gone: "map_of (sessions ?st') k = None \<and> readyState ?st' (ws s0) \<noteq> 1"
    if "(k, s0) \<in> set (sessions st)" "stale now s0" for k s0
  proof -
    have "k \<notin> fst ` set (filter ?P (sessions st))"
      using that by auto
    then have "map_of (sessions ?st') k = None"
      unfolding s' by (simp add: map_of_eq_None_iff)
    moreover have "readyState ?st' (ws s0) \<noteq> 1"
      unfolding rs' rs using that by auto
    ultimately show ?thesis by simp
  qed
  have kept: "map_of (sessions ?st') k = Some s0"
    if "(k, s0) \<in> set (sessions st)" "\<not> stale now s0" for k s0
  proof -
    have only: "s' = s0" if "(k, s') \<in> set (sessions st)" for s'
      using assms(1) that \<open>(k, s0) \<in> set (sessions st)\<close> by (meson eq_key_imp_eq_value)
    have 1: "map_of (sessions st) k = Some s0"
      using assms(1) that(1) by simp
    have 2: "\<not> (\<exists>s'. (k, s') \<in> set (sessions st) \<and> stale now s')"
      using only that(2) by auto
    show ?thesis
      unfolding s'
      by (rule map_of_filter_in
            [where P = "\<lambda>k v. \<not> (\<exists>s'. (k, s') \<in> set (sessions st) \<and> stale now s')", OF 1 2])
  qed
  have conn: "readyState ?st' (ws s0) = readyState st (ws s0)"
    if "\<forall>(k', s') \<in> set (sessions st). stale now s' \<longrightarrow> ws s' \<noteq> ws s0" for s0
    unfolding rs' rs using that by auto
  from sw gone kept conn show ?thesis by blast
qed

lemma sweep_with_string_keys_example:
  "(case sweep desktop 1800500 two_sessions of
      Inl e \<Rightarrow> False
    | Inr st' \<Rightarrow> map_of (sessions st') (JStr ''session_1'') = None \<and> readyState st' 1 \<noteq> 1
        \<and> map_of (sessions st') (JStr ''client_abcd'') = Some session_b)"
proof -
  have 1: "distinct (map fst (sessions two_sessions))"
    by (simp add: two_sessions_def)
  have 2: "\<forall>(k, s) \<in> set (sessions two_sessions). is_string k"
    by (simp add: two_sessions_def)
  have a: "(JStr ''session_1'', session_a) \<in> set (sessions two_sessions)"
    "stale 1800500 session_a" "ws session_a = 1"
    by (simp_all add: two_sessions_def stale_def SESSION_TIMEOUT_def session_a_def)
  have b: "(JStr ''client_abcd'', session_b) \<in> set (sessions two_sessions)"
    "\<not> stale 1800500 session_b"
    by (simp_all add: two_sessions_def stale_def SESSION_TIMEOUT_def session_b_def)
  from sweep_with_string_keys [OF 1 2, of desktop 1800500] obtain st'
    where sw: "sweep desktop 1800500 two_sessions = Inr st'"
      and ev: "\<forall>(k, s) \<in> set (sessions two_sessions).
                (stale 1800500 s \<longrightarrow>
                   map_of (sessions st') k = None \<and> readyState st' (ws s) \<noteq> 1)
              \<and> (\<not> stale 1800500 s \<longrightarrow> map_of (sessions st') k = Some s
                   \<and> ((\<forall>(k', s') \<in> set (sessions two_sessions).
                          stale 1800500 s' \<longrightarrow> ws s' \<noteq> ws s) \<longrightarrow>
                        readyState st' (ws s) = readyState two_sessions (ws s)))"
    by blast
  from ev a(1,2)
  have "map_of (sessions st') (JStr ''session_1'') = None \<and> readyState st' (ws session_a) \<noteq> 1"
    by blast
  moreover from ev b have "map_of (sessions st') (JStr ''client_abcd'') = Some session_b"
    by blast
  ultimately show ?thesis
    using sw a(3) by simp
qed

lemma object_named_sessions:
  "sessions object_named =
     [(JObj 1 [(''toString'', JNum (Fin 1 0))],
       \<lparr>id' = JObj 1 [(''toString'', JNum (Fin 1 0))], ws = 1, ip = ''10.0.0.1'',
        connectedAt = 0, lastActivity = 10\<rparr>)]"
  by (simp add: object_named_def on_message_def try_block_def process_command_def
      case_setSessionId_def console_log_def on_connection_def initial_def generateSessionId_def
      desktop_def stub_builtins_def msg_def Let_def)

text \<open>
  \<^bold>\<open>C6.\<close> Every session with \<open>now - lastActivity > SESSION_TIMEOUT\<close> should have its
  connection closed and be removed by the sweep. The code misses this for a session whose
  id cannot be printed. \<^verbatim>\<open>setSessionId\<close> stores any truthy value as the key, and the
  sweep interpolates the key into a log line before it closes and deletes, outside any
  \<^verbatim>\<open>try\<close>. After \<^verbatim>\<open>{"type":"setSessionId","sessionId":{"toString":1}}\<close> the registry
  holds one session, last active at \<open>10\<close>; the sweep at \<open>1800011\<close> finds it stale and
  throws a \<^verbatim>\<open>TypeError\<close> at the log line: the callback ends there, the connection is not
  closed and the session is not removed.
\<close>

theorem sweep_throws_on_object_id:
  "reachable desktop object_named
   \<and> sessions object_named =
     [(JObj 1 [(''toString'', JNum (Fin 1 0))],
       \<lparr>id' = JObj 1 [(''toString'', JNum (Fin 1 0))], ws = 1, ip = ''10.0.0.1'',
        connectedAt = 0, lastActivity = 10\<rparr>)]
   \<and> sweep desktop 1800011 object_named = Inl TypeError"
proof -
  have r: "reachable desktop object_named"
    unfolding object_named_def
    by (intro reachable.message reachable.connection reachable.start)
  have s: "sweep desktop 1800011 object_named = Inl TypeError"
    by (simp add: sweep_def object_named_sessions SESSION_TIMEOUT_def console_log_def)
  from r object_named_sessions s show ?thesis
    by (intro conjI)
qed

section \<open>Uniqueness of the session ids\<close>

lemma registry_inv_update:
  assumes "registry_inv reg" and "id' s = k"
  shows "registry_inv (AList.update k s reg)"
proof -
  have "list_all (\<lambda>(k, s). id' s = k) (AList.update k s reg)"
    using assms by (induction reg) (auto simp: registry_inv_def)
  with assms(1) show ?thesis
    by (simp add: registry_inv_def distinct_update)
qed

lemma registry_inv_delete:
  assumes "registry_inv reg"
  shows "registry_inv (AList.delete k reg)"
proof -
  have "distinct (map fst (AList.delete k reg))"
    using assms by (simp add: registry_inv_def distinct_delete)
  moreover have "list_all (\<lambda>(k, s). id' s = k) (AList.delete k reg)"
    using assms by (auto simp: registry_inv_def AList.delete_eq list_all_iff)
  ultimately show ?thesis
    by (simp add: registry_inv_def)
qed

lemma registry_inv_lookup:
  assumes "registry_inv reg" and "map_of reg k = Some s"
  shows "id' s = k"
  using assms by (auto simp: registry_inv_def list_all_iff dest!: map_of_SomeD)

lemma registry_inv_unique_ids:
  assumes "registry_inv reg"
  shows "unique_ids reg"
proof -
  from assms have "list_all (\<lambda>(k, s). id' s = k) reg"
    by (simp add: registry_inv_def)
  then have eq: "map (\<lambda>(k, s). id' s) reg = map fst reg"
    by (induction reg) auto
  from assms have "distinct (map fst reg)"
    by (simp add: registry_inv_def)
  then show ?thesis
    unfolding unique_ids_def eq .
qed

lemma process_command_inv:
  assumes "registry_inv (sessions st)"
  shows "registry_inv (sessions (fst (process_command B rob c data ty s st)))"
proof (cases "ty = JStr ''setSessionId''")
  case False
  with assms show ?thesis by (simp add: process_command_frame)
next
  case True
  show ?thesis
  proof (cases "get_prop data ''sessionId''")
    case (Inl e)
    with True assms show ?thesis
      by (simp add: process_command_def case_setSessionId_def)
  next
    case (Inr newId)
    show ?thesis
    proof (cases "truthy newId")
      case False
      with True Inr assms show ?thesis
        by (simp add: process_command_def case_setSessionId_def)
    next
      case t: True
      with True Inr assms show ?thesis
        by (simp add: process_command_def case_setSessionId_effect registry_inv_update
            registry_inv_delete)
    qed
  qed
qed

lemma on_message_inv:
  assumes "registry_inv (sessions st)"
  shows "registry_inv (sessions (on_message E c now parsed st))"
proof (cases parsed)
  case (Inl e)
  with assms show ?thesis by (simp add: on_message_frame try_block_def)
next
  case (Inr data)
  show ?thesis
  proof (cases "map_of (sessions st) (ws_sessionId st c)")
    case None
    with Inr assms show ?thesis by (simp add: on_message_frame try_block_def)
  next
    case (Some s)
    let ?s = "s\<lparr>lastActivity := now\<rparr>"
    let ?st1 = "st\<lparr>sessions := AList.update (ws_sessionId st c) ?s (sessions st)\<rparr>"
    have 1: "registry_inv (sessions ?st1)"
      using registry_inv_update [OF assms, of ?s "ws_sessionId st c"]
        registry_inv_lookup [OF assms Some] by simp
    then have 2: "registry_inv (sessions (?st1\<lparr>console := l\<rparr>))" for l
      by simp
    from Inr Some 1 2 show ?thesis
      by (simp add: on_message_frame try_block_def Let_def console_log_def process_command_inv
          split: sum.splits option.splits prod.splits)
  qed
qed

lemma on_connection_inv:
  assumes "registry_inv (sessions st)"
  shows "registry_inv (sessions (on_connection E c a t1 t2 t3 st))"
  using assms by (simp add: on_connection_def Let_def registry_inv_update)

lemma on_close_inv:
  assumes "registry_inv (sessions st)" and "on_close E c now st = Inr st'"
  shows "registry_inv (sessions st')"
  using assms
  by (auto simp: on_close_def Let_def console_log_def registry_inv_delete
      split: option.splits prod.splits)

lemma on_error_inv:
  assumes "registry_inv (sessions st)" and "on_error E c err st = Inr st'"
  shows "registry_inv (sessions st')"
  using assms
  by (auto simp: on_error_def console_log_def registry_inv_delete
      split: option.splits prod.splits if_splits)

lemma sweep_loop_inv:
  assumes "sweep_loop B now xs st n = Inr (st', n')" and "registry_inv (sessions st)"
  shows "registry_inv (sessions st')"
  using assms
proof (induction xs arbitrary: st n)
  case Nil
  then show ?case by simp
next
  case (Cons x xs)
  obtain k s where x: "x = (k, s)"
    by (cases x)
  show ?case
  proof (cases "now - lastActivity s > SESSION_TIMEOUT")
    case False
    with Cons x show ?thesis by simp
  next
    case True
    show ?thesis
    proof (cases "interpolate B [k]")
      case (Some e)
      with Cons.prems True x show ?thesis by (simp add: console_log_def)
    next
      case None
      let ?st1 = "st\<lparr>console := console st @ [CleaningUp k (now - lastActivity s)]\<rparr>"
      let ?st2 = "if readyState ?st1 (ws s) = 1
                  then ?st1\<lparr>readyState := (readyState ?st1)(ws s := 2)\<rparr> else ?st1"
      let ?st3 = "?st2\<lparr>sessions := AList.delete k (sessions ?st2)\<rparr>"
      have tk: "console_log B [k] (CleaningUp k (now - lastActivity s)) st = (?st1, None)"
        using None by (simp add: console_log_def)
      have st: "(now - lastActivity s > SESSION_TIMEOUT) = True"
        using True by simp
      have step: "sweep_loop B now (x # xs) st n = sweep_loop B now xs ?st3 (n + 1)"
        unfolding x by (simp only: sweep_loop.simps Let_def st if_True tk prod.case option.case)
      have "registry_inv (sessions ?st3)"
        using Cons.prems(2) by (simp add: registry_inv_delete)
      with Cons.IH [of ?st3 "n + 1"] Cons.prems(1) step show ?thesis by simp
    qed
  qed
qed

lemma sweep_inv:
  assumes "registry_inv (sessions st)" and "sweep E now st = Inr st'"
  shows "registry_inv (sessions st')"
proof -
  from assms(2) obtain st1 n1
    where 1: "sweep_loop (lang E) now (sessions st) st 0 = Inr (st1, n1)"
      and 2: "sessions st' = sessions st1"
    by (auto simp: sweep_def split: sum.splits prod.splits if_splits)
  from sweep_loop_inv [OF 1 assms(1)] 2 show ?thesis by simp
qed

text \<open>
  \<^bold>\<open>C7.\<close> In every state the server can reach, the ids of the registered sessions are
  pairwise distinct: the keys of the registry are distinct and every record sits under its
  own id. Every operation keeps this: accepting a connection, a message (which touches or
  renames), a close, a transport error and the sweep.
\<close>

theorem session_ids_unique:
  assumes "reachable E st"
  shows "unique_ids (sessions st) \<and> distinct (map fst (sessions st))
       \<and> list_all (\<lambda>(k, s). id' s = k) (sessions st)"
proof -
  from assms have "registry_inv (sessions st)"
  proof (induction rule: reachable.induct)
    case (start p)
    show ?case by (simp add: initial_def registry_inv_def)
  next
    case (connection st c a t1 t2 t3)
    then show ?case by (simp add: on_connection_inv)
  next
    case (message st c now parsed)
    then show ?case by (simp add: on_message_inv)
  next
    case (closed st c now st')
    then show ?case using on_close_inv by blast
  next
    case (errored st c err st')
    then show ?case using on_error_inv by blast
  next
    case (swept st now st')
    then show ?case using sweep_inv by blast
  next
    case (outside st r p)
    then show ?case by simp
  qed
  then show ?thesis
    using registry_inv_unique_ids by (auto simp: registry_inv_def)
qed

theorem session_ids_unique_witness:
  "reachable desktop
     (on_message desktop 2 7
        (msg [(''type'', JStr ''setSessionId''), (''sessionId'', JStr ''0'')])
        (on_connection desktop 2 ''10.0.0.2'' 3 3 3
          (on_connection desktop 1 ''10.0.0.1'' 0 0 0
            (initial \<lparr>position = (Fin 500 0, Fin 500 0), bounds = (Fin 1920 0, Fin 1080 0)\<rparr>))))
   \<and> unique_ids (sessions
     (on_message desktop 2 7
        (msg [(''type'', JStr ''setSessionId''), (''sessionId'', JStr ''0'')])
        (on_connection desktop 2 ''10.0.0.2'' 3 3 3
          (on_connection desktop 1 ''10.0.0.1'' 0 0 0
            (initial \<lparr>position = (Fin 500 0, Fin 500 0), bounds = (Fin 1920 0, Fin 1080 0)\<rparr>)))))"
proof -
  let ?st = "on_message desktop 2 7
        (msg [(''type'', JStr ''setSessionId''), (''sessionId'', JStr ''0'')])
        (on_connection desktop 2 ''10.0.0.2'' 3 3 3
          (on_connection desktop 1 ''10.0.0.1'' 0 0 0
            (initial \<lparr>position = (Fin 500 0, Fin 500 0), bounds = (Fin 1920 0, Fin 1080 0)\<rparr>)))"
  have r: "reachable desktop ?st"
    by (intro reachable.message reachable.connection reachable.start)
  from session_ids_unique [OF r] r show ?thesis by simp
qed

end
